theory Spec2Isabelle
  imports Complex_Main "HOL-Library.AList"
begin

section \<open>JavaScript values\<close>

text \<open>
  The module under study (\<^verbatim>\<open>src/index.js\<close>) wraps an Elasticsearch client. Error values
  handed to it are dynamically typed, so they are modelled by a small universe of
  JavaScript values. Numbers are the integers (no NaN, no fractions); an object is its list
  of own properties in the order in which the engine enumerates them (array indices
  first, then the other names in insertion order), and of two entries with one name the
  first counts; \<open>JFun v\<close> is a function that returns \<open>v\<close> when called without arguments
  (functions that throw are outside the model).
\<close>

datatype jsval =
    JUndefined
  | JNull
  | JBool bool
  | JNum int
  | JStr string
  | JArr "jsval list"
  | JObj "(string \<times> jsval) list"
  | JFun jsval

text \<open>The only exception the modelled code can raise by itself is a \<^verbatim>\<open>TypeError\<close>.\<close>

datatype js_exn = TypeError

text \<open>Truthiness, as used by \<^verbatim>\<open>if (x)\<close> and \<^verbatim>\<open>x ? a : b\<close>.\<close>

fun truthy :: "jsval \<Rightarrow> bool" where
  "truthy JUndefined = False"
| "truthy JNull = False"
| "truthy (JBool b) = b"
| "truthy (JNum n) = (n \<noteq> 0)"
| "truthy (JStr s) = (s \<noteq> [])"
| "truthy (JArr xs) = True"
| "truthy (JObj ps) = True"
| "truthy (JFun v) = True"

text \<open>
  Property read \<^verbatim>\<open>v.k\<close>: a \<^verbatim>\<open>TypeError\<close> on \<^verbatim>\<open>null\<close> and \<^verbatim>\<open>undefined\<close>, the
  property's value on an object that has it, \<^verbatim>\<open>undefined\<close> otherwise. None of the names
  this module reads (\<^verbatim>\<open>toJSON\<close>, \<^verbatim>\<open>msg\<close>, \<^verbatim>\<open>stack\<close>, \<^verbatim>\<open>response\<close>, \<^verbatim>\<open>type\<close>, ...) is
  defined on the prototypes of strings, numbers, booleans, arrays or functions.
\<close>

fun get_prop :: "jsval \<Rightarrow> string \<Rightarrow> js_exn + jsval" where
  "get_prop JUndefined k = Inl TypeError"
| "get_prop JNull k = Inl TypeError"
| "get_prop (JObj ps) k = Inr (case map_of ps k of None \<Rightarrow> JUndefined | Some v \<Rightarrow> v)"
| "get_prop (JBool b) k = Inr JUndefined"
| "get_prop (JNum n) k = Inr JUndefined"
| "get_prop (JStr s) k = Inr JUndefined"
| "get_prop (JArr xs) k = Inr JUndefined"
| "get_prop (JFun v) k = Inr JUndefined"

text \<open>Method call \<^verbatim>\<open>f()\<close>: a \<^verbatim>\<open>TypeError\<close> when \<open>f\<close> is not a function.\<close>

fun call :: "jsval \<Rightarrow> js_exn + jsval" where
  "call (JFun v) = Inr v"
| "call JUndefined = Inl TypeError"
| "call JNull = Inl TypeError"
| "call (JBool b) = Inl TypeError"
| "call (JNum n) = Inl TypeError"
| "call (JStr s) = Inl TypeError"
| "call (JArr xs) = Inl TypeError"
| "call (JObj ps) = Inl TypeError"

text \<open>
  lodash's \<^verbatim>\<open>_.get(v, 'a.b.c')\<close>, for a path of names separated by single dots (as the
  paths of this module are). When \<open>v\<close> is an object that has a property named by the
  whole string, dots included, that property is read. Otherwise the string is split at
  the dots and the names are followed while the current value is neither \<^verbatim>\<open>null\<close> nor
  \<^verbatim>\<open>undefined\<close>. It never throws, and gives \<^verbatim>\<open>undefined\<close> when the path does not resolve.
\<close>

fun path_segments :: "string \<Rightarrow> string list" where
  "path_segments [] = [[]]"
| "path_segments (c # cs) =
     (if c = CHR ''.'' then [] # path_segments cs
      else (case path_segments cs of [] \<Rightarrow> [[c]] | s # ss \<Rightarrow> (c # s) # ss))"

fun walk :: "jsval \<Rightarrow> string list \<Rightarrow> jsval" where
  "walk v [] = v"
| "walk v (k # ks) =
     (case v of
        JObj ps \<Rightarrow> (case map_of ps k of None \<Rightarrow> JUndefined | Some w \<Rightarrow> walk w ks)
      | _ \<Rightarrow> JUndefined)"

definition lodash_get :: "jsval \<Rightarrow> string \<Rightarrow> jsval" where
  "lodash_get v path =
     (case v of
        JObj ps \<Rightarrow>
          (case map_of ps path of
             Some w \<Rightarrow> w
           | None \<Rightarrow> walk v (path_segments path))
      | _ \<Rightarrow> walk v (path_segments path))"

text \<open>
  Built-ins of the language that the module calls, taken as parameters:
  \<open>stringify j\<close> is the text that \<^verbatim>\<open>"..." + JSON.stringify(j)\<close> appends, \<open>to_string v\<close> is
  the text a template literal renders for a value that is not a string, and \<open>type_error\<close>
  is the \<^verbatim>\<open>TypeError\<close> object the engine hands to a \<^verbatim>\<open>.catch\<close> callback.
\<close>

record js_runtime =
  stringify :: "jsval \<Rightarrow> string"
  to_string :: "jsval \<Rightarrow> string"
  type_error :: jsval

text \<open>Template literal \<^verbatim>\<open>`${v}`\<close>.\<close>

definition template :: "js_runtime \<Rightarrow> jsval \<Rightarrow> string" where
  "template rt v = (case v of JStr s \<Rightarrow> s | _ \<Rightarrow> to_string rt v)"

section \<open>The error normalizer\<close>

text \<open>
  \<^verbatim>\<open>
  function parseError(err) {
      if (err.toJSON) {
          var err = err.toJSON();
          if (err.msg) { return err.msg; }
          else { return "Unknown ES Error Format " + JSON.stringify(err); }
      }
      if (err.stack) { return err.stack }
      return err.response ? err.response : err;
  }
  \<close>
\<close>

definition parseError :: "js_runtime \<Rightarrow> jsval \<Rightarrow> js_exn + jsval" where
  "parseError rt err =
     (case get_prop err ''toJSON'' of
        Inl e \<Rightarrow> Inl e
      | Inr tj \<Rightarrow>
          if truthy tj then
            (case call tj of
               Inl e \<Rightarrow> Inl e
             | Inr j \<Rightarrow>
                 (case get_prop j ''msg'' of
                    Inl e \<Rightarrow> Inl e
                  | Inr m \<Rightarrow>
                      if truthy m then Inr m
                      else Inr (JStr (''Unknown ES Error Format '' @ stringify rt j))))
          else
            (case get_prop err ''stack'' of
               Inl e \<Rightarrow> Inl e
             | Inr st \<Rightarrow>
                 if truthy st then Inr st
                 else
                   (case get_prop err ''response'' of
                      Inl e \<Rightarrow> Inl e
                    | Inr rsp \<Rightarrow> Inr (if truthy rsp then rsp else err))))"

section \<open>Double-precision arithmetic\<close>

text \<open>
  JavaScript numbers are IEEE 754 doubles: an arithmetic operation returns the double
  nearest to the exact result, a tie going to the neighbour whose last significand bit
  is even. \<open>round_double\<close> is that rounding on the reals: a double has 53 significant bits
  and a binary exponent from \<open>- 1022\<close> to \<open>1023\<close> (the subnormal numbers share the
  exponent \<open>- 1022\<close>), so near \<open>x\<close> the doubles are the multiples of
  \<open>pow2 (binade \<bar>x\<bar> - 52)\<close>. Overflow to infinity is not modelled; no value here comes
  near it.
\<close>

definition pow2 :: "int \<Rightarrow> real" where
  "pow2 e = (if 0 \<le> e then 2 ^ nat e else 1 / 2 ^ nat (- e))"

text \<open>
  The exponent of \<open>x \<ge> 0\<close>: the largest \<open>e\<close> from \<open>- 1022\<close> to \<open>1023\<close> with
  \<open>pow2 e \<le> x\<close>, and \<open>- 1022\<close> when there is none; found by counting up.
\<close>

fun binade_from :: "nat \<Rightarrow> int \<Rightarrow> real \<Rightarrow> int" where
  "binade_from 0 e x = e"
| "binade_from (Suc k) e x = (if pow2 (e + 1) \<le> x then binade_from k (e + 1) x else e)"

definition binade :: "real \<Rightarrow> int" where
  "binade x = binade_from 2045 (- 1022) x"

definition round_half_even :: "real \<Rightarrow> int" where
  "round_half_even q =
     (let f = \<lfloor>q\<rfloor>; d = q - of_int f
      in if d < 1 / 2 then f else if 1 / 2 < d then f + 1 else if even f then f else f + 1)"

definition round_double :: "real \<Rightarrow> real" where
  "round_double x =
     (let u = pow2 (binade \<bar>x\<bar> - 52)
      in sgn x * of_int (round_half_even (\<bar>x\<bar> / u)) * u)"

section \<open>The backoff scheduler\<close>

text \<open>
  \<^verbatim>\<open>
  function retry(retryTimer, fn, data) {
      let timer = Math.floor(Math.random() * (retryTimer.limit - retryTimer.start) + retryTimer.start);
      if (retryTimer.limit < 60000) { retryTimer.limit += 10000 }
      if (retryTimer.start < 30000) { retryTimer.start += 5000 }
      setTimeout(function() { fn(data); }, timer);
  }
  \<close>
  The draw of \<^verbatim>\<open>Math.random()\<close> is an argument. The subtraction, the product and the sum
  are each rounded to a double; the bounds of the range are integers far below
  \<open>2 ^ 53\<close>, which doubles hold exactly, so that the two additions that widen the range
  are exact. The function returns the delay and the widened range; the call of \<open>fn\<close>
  after the delay is made by \<open>run\<close> below.
\<close>

record retryTimer =
  start :: int
  limit :: int

definition new_retryTimer :: retryTimer where
  "new_retryTimer = \<lparr>start = 5000, limit = 10000\<rparr>"

definition retry_delay :: "real \<Rightarrow> retryTimer \<Rightarrow> int" where
  "retry_delay rnd retryTimer =
     \<lfloor>round_double
        (round_double
           (rnd * round_double (of_int (limit retryTimer) - of_int (start retryTimer)))
         + of_int (start retryTimer))\<rfloor>"

definition widen :: "retryTimer \<Rightarrow> retryTimer" where
  "widen retryTimer =
     (let t1 = (if limit retryTimer < 60000
                then retryTimer\<lparr>limit := limit retryTimer + 10000\<rparr> else retryTimer)
      in (if start t1 < 30000 then t1\<lparr>start := start t1 + 5000\<rparr> else t1))"

definition retry :: "real \<Rightarrow> retryTimer \<Rightarrow> int \<times> retryTimer" where
  "retry rnd retryTimer = (retry_delay rnd retryTimer, widen retryTimer)"

text \<open>
  Successive uses of one range: \<open>uses t rnds\<close> lists, for each draw, the range as it
  stood at that use and the delay computed from it; \<open>after_uses\<close> is the range left
  behind.
\<close>

fun uses :: "retryTimer \<Rightarrow> real list \<Rightarrow> (retryTimer \<times> int) list" where
  "uses t [] = []"
| "uses t (rnd # rnds) = (t, fst (retry rnd t)) # uses (snd (retry rnd t)) rnds"

fun after_uses :: "retryTimer \<Rightarrow> real list \<Rightarrow> retryTimer" where
  "after_uses t [] = t"
| "after_uses t (rnd # rnds) = after_uses (snd (retry rnd t)) rnds"

section \<open>Promises and retry chains\<close>

text \<open>
  Every wrapper has the shape
  \<^verbatim>\<open>
  return new Promise(function(resolve, reject) {
      function attempt() { client.op(request).then(onResult).catch(onError); }
      attempt();
  })
  \<close>
  What one callback does with the settlement of one client call is an \<open>outcome\<close>:
  it resolves the wrapper's promise, rejects it, calls \<open>retry\<close> with the request to
  reissue, returns without doing any of these (\<open>NoSettle\<close>), or throws.
\<close>

datatype 'r settled = Fulfils 'r | Fails jsval

datatype ('v, 'p) outcome =
    Resolve 'v
  | Reject jsval
  | Retry 'p
  | NoSettle
  | Throws js_exn

datatype 'v promise = Pending | Fulfilled 'v | Rejected jsval

record ('v, 'p) chain =
  state :: "'v promise"
  waiting :: bool
  sent :: "'p list"
  delays :: "int list"
  timer :: retryTimer

text \<open>
  \<open>run handler t p events\<close> plays one chain: the request \<open>p\<close> is sent to the client at
  once; each event is the settlement of the outstanding client call together with the
  random draw that \<open>retry\<close> makes if it is called. A \<open>Retry\<close> schedules the next attempt
  with the widened range; once the promise is settled, or the callback ended without
  settling or rescheduling, later events do not matter. With no event left the promise is
  still pending. \<open>waiting\<close> tells whether a client call is outstanding: a
  promise that is pending and not waiting will never be settled. \<open>sent\<close> lists the
  requests issued, \<open>delays\<close> the delays drawn.
\<close>

fun run :: "('p \<Rightarrow> 'o \<Rightarrow> ('v, 'p) outcome) \<Rightarrow> retryTimer \<Rightarrow> 'p \<Rightarrow> ('o \<times> real) list
    \<Rightarrow> ('v, 'p) chain" where
  "run handler t p [] =
     \<lparr>state = Pending, waiting = True, sent = [p], delays = [], timer = t\<rparr>"
| "run handler t p ((ev, rnd) # events) =
     (case handler p ev of
        Resolve v \<Rightarrow>
          \<lparr>state = Fulfilled v, waiting = False, sent = [p], delays = [], timer = t\<rparr>
      | Reject r \<Rightarrow>
          \<lparr>state = Rejected r, waiting = False, sent = [p], delays = [], timer = t\<rparr>
      | Retry p' \<Rightarrow>
          (let c = run handler (snd (retry rnd t)) p' events
           in c\<lparr>sent := p # sent c, delays := fst (retry rnd t) # delays c\<rparr>)
      | NoSettle \<Rightarrow>
          \<lparr>state = Pending, waiting = False, sent = [p], delays = [], timer = t\<rparr>
      | Throws e \<Rightarrow>
          \<lparr>state = Pending, waiting = False, sent = [p], delays = [], timer = t\<rparr>)"

section \<open>The bulk response classifier\<close>

text \<open>
  A bulk response carries \<^verbatim>\<open>errors\<close> and \<^verbatim>\<open>items\<close>; each item is a one-entry map from
  the action name to \<^verbatim>\<open>{status, error: {type, reason}}\<close>, of which
  \<^verbatim>\<open>_.values(items[i])[0]\<close> is the body. A field that is absent (\<^verbatim>\<open>undefined\<close>) is
  \<open>None\<close>.
\<close>

record item_error =
  err_type :: "string option"
  err_reason :: "string option"

record bulk_item =
  action :: string
  status :: "int option"
  error :: "item_error option"

record bulk_result =
  errors :: bool
  items :: "bulk_item list"

definition DOCUMENT_EXISTS :: int where
  "DOCUMENT_EXISTS = 409"

text \<open>Array read \<^verbatim>\<open>data[k]\<close>: \<^verbatim>\<open>undefined\<close> past the end.\<close>

definition elem_at :: "jsval list \<Rightarrow> nat \<Rightarrow> jsval" where
  "elem_at data k = (if k < length data then data ! k else JUndefined)"

text \<open>An optional string inside a template literal.\<close>

definition tmpl :: "string option \<Rightarrow> string" where
  "tmpl x = (case x of None \<Rightarrow> ''undefined'' | Some s \<Rightarrow> s)"

text \<open>
  \<^verbatim>\<open>
  for (var i = 0; i < items.length; i++) {
      var item = _.values(items[i])[0];
      if (item.error) {
          if (item.status === DOCUMENT_EXISTS) { continue; }
          if (item.error.type === 'es_rejected_execution_exception') {
              if (i === 0) { retry.push(data[0], data[1]) }
              else { retry.push(data[i * 2], data[i * 2 + 1]) }
          }
          else {
              if (item.error.type !== 'document_already_exists_exception'
                  && item.error.type !== 'document_missing_exception') {
                  nonRetriableError = true;
                  reason = `${item.error.type}--${item.error.reason}`;
                  break;
              }
          }
      }
  }
  \<close>
  The loop, on the items from index \<open>i\<close> on; it returns
  \<open>(nonRetriableError, reason, retry)\<close> as they stand when the loop is left (the
  array \<^verbatim>\<open>retry\<close> is called \<open>toRetry\<close>, apart from the function \<open>retry\<close>).
\<close>

fun filter_loop :: "jsval list \<Rightarrow> nat \<Rightarrow> bulk_item list \<Rightarrow> jsval list
    \<Rightarrow> bool \<times> string \<times> jsval list" where
  "filter_loop data i [] toRetry = (False, [], toRetry)"
| "filter_loop data i (item # rest) toRetry =
     (case error item of
        None \<Rightarrow> filter_loop data (i + 1) rest toRetry
      | Some e \<Rightarrow>
          if status item = Some DOCUMENT_EXISTS then filter_loop data (i + 1) rest toRetry
          else if err_type e = Some ''es_rejected_execution_exception'' then
            (if i = 0 then filter_loop data (i + 1) rest (toRetry @ [elem_at data 0, elem_at data 1])
             else filter_loop data (i + 1) rest (toRetry @ [elem_at data (i * 2), elem_at data (i * 2 + 1)]))
          else if err_type e \<noteq> Some ''document_already_exists_exception''
                  \<and> err_type e \<noteq> Some ''document_missing_exception''
          then (True, tmpl (err_type e) @ ''--'' @ tmpl (err_reason e), toRetry)
          else filter_loop data (i + 1) rest toRetry)"

text \<open>
  \<^verbatim>\<open>
  if (nonRetriableError) { return {data: [], error: nonRetriableError, reason: reason}; }
  return {data: retry, error: false};
  \<close>
\<close>

record filtered =
  f_data :: "jsval list"
  f_error :: bool
  f_reason :: "string option"

definition filterResponse :: "jsval list \<Rightarrow> bulk_result \<Rightarrow> filtered" where
  "filterResponse data results =
     (case filter_loop data 0 (items results) [] of
        (nonRetriableError, reason, toRetry) \<Rightarrow>
          if nonRetriableError
          then \<lparr>f_data = [], f_error = nonRetriableError, f_reason = Some reason\<rparr>
          else \<lparr>f_data = toRetry, f_error = False, f_reason = None\<rparr>)"

section \<open>bulkSend\<close>

text \<open>
  \<^verbatim>\<open>
  client.bulk({body: data})
      .then(function(results) {
          if (results.errors) {
              var response = _filterResponse(logger, data, results);
              if (response.error) { reject(response.reason) }
              else {
                  if (response.data.length === 0) { resolve(results) }
                  else { warning(); retry(retryTimer, sendData, response.data); }
              }
          }
          else { resolve(results) }
      })
      .catch(function(err) {
          var errMsg = parseError(err);
          logger.error(`bulk sender error: ${errMsg}`);
          reject(`bulk sender error: ${errMsg}`);
      })
  \<close>
  Calls of the logger are not modelled. The \<^verbatim>\<open>.then\<close> callback is written over the
  classifier it calls, which is \<open>filterResponse\<close>.
\<close>

definition bulk_then_with :: "(jsval list \<Rightarrow> bulk_result \<Rightarrow> filtered) \<Rightarrow> jsval list
    \<Rightarrow> bulk_result \<Rightarrow> (bulk_result, jsval list) outcome" where
  "bulk_then_with classify data results =
     (if errors results then
        (let response = classify data results in
           if f_error response
           then Reject (case f_reason response of None \<Rightarrow> JUndefined | Some r \<Rightarrow> JStr r)
           else if length (f_data response) = 0 then Resolve results
           else Retry (f_data response))
      else Resolve results)"

definition bulk_then :: "jsval list \<Rightarrow> bulk_result \<Rightarrow> (bulk_result, jsval list) outcome" where
  "bulk_then = bulk_then_with filterResponse"

definition bulk_catch :: "js_runtime \<Rightarrow> jsval \<Rightarrow> (bulk_result, jsval list) outcome" where
  "bulk_catch rt err =
     (case parseError rt err of
        Inl e \<Rightarrow> Throws e
      | Inr errMsg \<Rightarrow> Reject (JStr (''bulk sender error: '' @ template rt errMsg)))"

definition sendData :: "js_runtime \<Rightarrow> jsval list \<Rightarrow> bulk_result settled
    \<Rightarrow> (bulk_result, jsval list) outcome" where
  "sendData rt data ev =
     (case ev of Fulfils results \<Rightarrow> bulk_then data results | Fails err \<Rightarrow> bulk_catch rt err)"

definition bulkSend :: "js_runtime \<Rightarrow> jsval list \<Rightarrow> (bulk_result settled \<times> real) list
    \<Rightarrow> (bulk_result, jsval list) chain" where
  "bulkSend rt data events = run (sendData rt) new_retryTimer data events"

section \<open>search and count\<close>

text \<open>
  The part of a search response the wrappers read:
  \<^verbatim>\<open>{_shards: {failed, failures: [{reason: {type}}]}, hits: {total, hits: [{_source}]}}\<close>.
\<close>

record shard_reason =
  rs_type :: string

record shard_failure =
  sf_reason :: shard_reason

record shards =
  failed :: int
  failures :: "shard_failure list"

record hit =
  h_source :: jsval

record hits_part =
  total :: int
  hits :: "hit list"

record search_response =
  r_shards :: shards
  r_hits :: hits_part

text \<open>
  lodash's \<^verbatim>\<open>_.uniq\<close>: scans the array and appends to the result each value not yet in
  it, so the first occurrence of every value is kept, in order.
\<close>

fun uniq_loop :: "'a list \<Rightarrow> 'a list \<Rightarrow> 'a list" where
  "uniq_loop result [] = result"
| "uniq_loop result (x # xs) =
     (if x \<in> set result then uniq_loop result xs else uniq_loop (result @ [x]) xs)"

definition uniq :: "'a list \<Rightarrow> 'a list" where
  "uniq xs = uniq_loop [] xs"

text \<open>\<^verbatim>\<open>Array.prototype.join\<close> on an array of strings.\<close>

fun join :: "string \<Rightarrow> string list \<Rightarrow> string" where
  "join sep [] = []"
| "join sep [x] = x"
| "join sep (x # y # ys) = x @ sep @ join sep (y # ys)"

text \<open>
  The \<^verbatim>\<open>.then\<close> callback of \<^verbatim>\<open>searchES\<close>, in \<^verbatim>\<open>search\<close>:
  \<^verbatim>\<open>
  if (data._shards.failed > 0) {
      var reasons = _.uniq(_.flatMap(data._shards.failures, function(shard) {
          return shard.reason.type
      }));
      if (reasons.length > 1 || reasons[0] !== 'es_rejected_execution_exception') {
          var errorReason = reasons.join(' | ');
          reject(errorReason)
      }
      else { retry(retryTimer, searchES) }
  }
  else {
      if (config.full_response) { resolve(data) }
      else { resolve(_.map(data.hits.hits, function(hit) { return hit._source })); }
  }
  \<close>
  and in \<^verbatim>\<open>count\<close>, where the last branch is \<^verbatim>\<open>resolve(data.hits.total)\<close>. \<^verbatim>\<open>searchES\<close>
  takes no argument: the retry reissues the query \<open>q\<close> of the enclosing call.
\<close>

definition shard_reasons :: "search_response \<Rightarrow> string list" where
  "shard_reasons data = uniq (map (\<lambda>shard. rs_type (sf_reason shard)) (failures (r_shards data)))"

datatype search_value = Full search_response | Sources "jsval list"

definition search_then :: "bool \<Rightarrow> 'q \<Rightarrow> search_response \<Rightarrow> (search_value, 'q) outcome" where
  "search_then full_response q data =
     (if failed (r_shards data) > 0 then
        (let reasons = shard_reasons data in
           if length reasons > 1
              \<or> (case reasons of [] \<Rightarrow> True | r0 # _ \<Rightarrow> r0 \<noteq> ''es_rejected_execution_exception'')
           then Reject (JStr (join '' | '' reasons))
           else Retry q)
      else if full_response then Resolve (Full data)
      else Resolve (Sources (map h_source (hits (r_hits data)))))"

definition count_then :: "'q \<Rightarrow> search_response \<Rightarrow> (int, 'q) outcome" where
  "count_then q data =
     (if failed (r_shards data) > 0 then
        (let reasons = shard_reasons data in
           if length reasons > 1
              \<or> (case reasons of [] \<Rightarrow> True | r0 # _ \<Rightarrow> r0 \<noteq> ''es_rejected_execution_exception'')
           then Reject (JStr (join '' | '' reasons))
           else Retry q)
      else Resolve (total (r_hits data)))"

text \<open>Chained property reads \<^verbatim>\<open>v.a.b.c\<close>.\<close>

fun get_path :: "jsval \<Rightarrow> string list \<Rightarrow> js_exn + jsval" where
  "get_path v [] = Inr v"
| "get_path v (k # ks) = (case get_prop v k of Inl e \<Rightarrow> Inl e | Inr w \<Rightarrow> get_path w ks)"

text \<open>
  The decimal numeral of a number that is not negative, as an array index is spelled as
  a property name.
\<close>

function decimal :: "int \<Rightarrow> string" where
  "decimal n =
     (if n < 10 then [''0123456789'' ! nat n]
      else decimal (n div 10) @ [''0123456789'' ! nat (n mod 10)])"
  by pat_completeness auto
termination
  by (relation "measure nat") auto

text \<open>
  The values lodash's \<^verbatim>\<open>_.every\<close> visits, in order. An array gives its elements and a
  string its characters. An object whose \<^verbatim>\<open>length\<close> is a number from 0 to
  \<open>2 ^ 53 - 1\<close> counts as array-like: it gives the values at the indices below the
  length, \<^verbatim>\<open>undefined\<close> where it has none. Any other object gives the values of its
  properties. Every other value (\<^verbatim>\<open>null\<close> and \<^verbatim>\<open>undefined\<close> included) gives nothing.
\<close>

fun collection :: "jsval \<Rightarrow> jsval list" where
  "collection (JArr xs) = xs"
| "collection (JObj ps) =
     (case map_of ps ''length'' of
        Some (JNum n) \<Rightarrow>
          if 0 \<le> n \<and> n \<le> 9007199254740991
          then map (\<lambda>i. case map_of ps (decimal i) of None \<Rightarrow> JUndefined | Some v \<Rightarrow> v)
                 [0..n - 1]
          else map snd (AList.clearjunk ps)
      | _ \<Rightarrow> map snd (AList.clearjunk ps))"
| "collection (JStr s) = map (\<lambda>c. JStr [c]) s"
| "collection JUndefined = []"
| "collection JNull = []"
| "collection (JBool b) = []"
| "collection (JNum n) = []"
| "collection (JFun v) = []"

text \<open>
  \<^verbatim>\<open>_.every(xs, function(shard) { return shard.type === 'es_rejected_execution_exception' })\<close>:
  stops at the first value that fails the test; the test throws on \<^verbatim>\<open>null\<close> and
  \<^verbatim>\<open>undefined\<close>.
\<close>

fun every_rejected :: "jsval list \<Rightarrow> js_exn + bool" where
  "every_rejected [] = Inr True"
| "every_rejected (shard # rest) =
     (case get_prop shard ''type'' of
        Inl e \<Rightarrow> Inl e
      | Inr t \<Rightarrow>
          if t = JStr ''es_rejected_execution_exception'' then every_rejected rest
          else Inr False)"

text \<open>
  The \<^verbatim>\<open>.catch\<close> callback of \<^verbatim>\<open>searchES\<close>, the same text in \<^verbatim>\<open>count\<close> and \<^verbatim>\<open>search\<close>:
  \<^verbatim>\<open>
  if (_.get(err, 'body.error.type') === 'reduce_search_phase_exception') {
      var retriableError = _.every(err.body.error.root_cause, function(shard) {
          return shard.type === 'es_rejected_execution_exception';
      });
      //scaffolding for retries, just reject for now
      if (retriableError) {
          var errMsg = parseError(err);
          logger.error(errMsg);
          reject(errMsg)
      }
  }
  else {
      var errMsg = parseError(err);
      logger.error(errMsg);
      reject(errMsg)
  }
  \<close>
\<close>

definition search_catch :: "js_runtime \<Rightarrow> jsval \<Rightarrow> ('v, 'q) outcome" where
  "search_catch rt err =
     (if lodash_get err ''body.error.type'' = JStr ''reduce_search_phase_exception''
      then
        (case get_path err [''body'', ''error'', ''root_cause''] of
           Inl e \<Rightarrow> Throws e
         | Inr root_cause \<Rightarrow>
             (case every_rejected (collection root_cause) of
                Inl e \<Rightarrow> Throws e
              | Inr retriableError \<Rightarrow>
                  if retriableError then
                    (case parseError rt err of
                       Inl e \<Rightarrow> Throws e
                     | Inr errMsg \<Rightarrow> Reject errMsg)
                  else NoSettle))
      else
        (case parseError rt err of
           Inl e \<Rightarrow> Throws e
         | Inr errMsg \<Rightarrow> Reject errMsg))"

definition search_attempt :: "js_runtime \<Rightarrow> bool \<Rightarrow> 'q \<Rightarrow> search_response settled
    \<Rightarrow> (search_value, 'q) outcome" where
  "search_attempt rt full_response q ev =
     (case ev of
        Fulfils data \<Rightarrow> search_then full_response q data
      | Fails err \<Rightarrow> search_catch rt err)"

definition count_attempt :: "js_runtime \<Rightarrow> 'q \<Rightarrow> search_response settled \<Rightarrow> (int, 'q) outcome" where
  "count_attempt rt q ev =
     (case ev of
        Fulfils data \<Rightarrow> count_then q data
      | Fails err \<Rightarrow> search_catch rt err)"

text \<open>
  The query descriptor is an object of the caller's: a reference into a store of
  objects, each a list of properties. \<^verbatim>\<open>count\<close> begins with \<^verbatim>\<open>query.size = 0\<close>, which
  writes to that object (and throws, under \<^verbatim>\<open>'use strict'\<close>, when \<open>query\<close> is not an
  object, before any promise exists); \<^verbatim>\<open>search\<close> only passes the reference on. Both
  return the store they leave and the chain; the client reads the object at every
  attempt, and nothing else writes to the store while the chain runs.
\<close>

type_synonym ref = nat

type_synonym store = "ref \<Rightarrow> (string \<times> jsval) list option"

definition count_chain :: "js_runtime \<Rightarrow> 'q \<Rightarrow> (search_response settled \<times> real) list
    \<Rightarrow> (int, 'q) chain" where
  "count_chain rt query events = run (count_attempt rt) new_retryTimer query events"

definition search_chain :: "js_runtime \<Rightarrow> bool \<Rightarrow> 'q \<Rightarrow> (search_response settled \<times> real) list
    \<Rightarrow> (search_value, 'q) chain" where
  "search_chain rt full_response query events =
     run (search_attempt rt full_response) new_retryTimer query events"

definition count :: "js_runtime \<Rightarrow> store \<Rightarrow> ref \<Rightarrow> (search_response settled \<times> real) list
    \<Rightarrow> store \<times> (js_exn + (int, ref) chain)" where
  "count rt st query events =
     (case st query of
        None \<Rightarrow> (st, Inl TypeError)
      | Some obj \<Rightarrow>
          (st(query \<mapsto> AList.update ''size'' (JNum 0) obj),
           Inr (count_chain rt query events)))"

definition search :: "js_runtime \<Rightarrow> bool \<Rightarrow> store \<Rightarrow> ref \<Rightarrow> (search_response settled \<times> real) list
    \<Rightarrow> store \<times> (search_value, ref) chain" where
  "search rt full_response st query events = (st, search_chain rt full_response query events)"

section \<open>Point operations\<close>

text \<open>
  \<^verbatim>\<open>
  function _errorHandler(fn, data, reject, logger) {
      let retryTimer = {start: 5000, limit: 10000};
      return function(err) {
          if (_.get(err, 'body.error.type') === 'es_rejected_execution_exception') {
              retry(retryTimer, fn, data)
          }
          else {
              var errMsg = parseError(err);
              logger.error(errMsg);
              reject(errMsg)
          }
      }
  }
  \<close>
  The range is created when the handler is, once for each top-level call.
\<close>

definition errorHandler :: "js_runtime \<Rightarrow> 'q \<Rightarrow> jsval \<Rightarrow> ('v, 'q) outcome" where
  "errorHandler rt data err =
     (if lodash_get err ''body.error.type'' = JStr ''es_rejected_execution_exception''
      then Retry data
      else
        (case parseError rt err of
           Inl e \<Rightarrow> Throws e
         | Inr errMsg \<Rightarrow> Reject errMsg))"

text \<open>
  The ten point operations share
  \<^verbatim>\<open>
  var errHandler = _errorHandler(attempt, query, reject, logger);
  function attempt() {
      client.op(query).then(function(result) { resolve(value) }).catch(errHandler);
  }
  attempt();
  \<close>
  and differ in the client call and in \<open>value\<close>: \<^verbatim>\<open>result._source\<close> (get), \<^verbatim>\<open>result\<close>
  (index and the four index-admin calls), \<^verbatim>\<open>query.body\<close> (indexWithId, create),
  \<^verbatim>\<open>query.body.doc\<close> (update), \<^verbatim>\<open>result.found\<close> (remove). An exception thrown while
  computing the value reaches \<^verbatim>\<open>errHandler\<close>, since \<^verbatim>\<open>.catch\<close> follows \<^verbatim>\<open>.then\<close>.
\<close>

datatype point_op =
    Get | Index | IndexWithId | Create | Update | Remove
  | Index_exists | Index_create | Index_refresh | Index_recovery

fun success_value :: "point_op \<Rightarrow> jsval \<Rightarrow> jsval \<Rightarrow> js_exn + jsval" where
  "success_value Get query result = get_prop result ''_source''"
| "success_value Index query result = Inr result"
| "success_value IndexWithId query result = get_prop query ''body''"
| "success_value Create query result = get_prop query ''body''"
| "success_value Update query result = get_path query [''body'', ''doc'']"
| "success_value Remove query result = get_prop result ''found''"
| "success_value Index_exists query result = Inr result"
| "success_value Index_create query result = Inr result"
| "success_value Index_refresh query result = Inr result"
| "success_value Index_recovery query result = Inr result"

definition point_attempt :: "js_runtime \<Rightarrow> point_op \<Rightarrow> jsval \<Rightarrow> jsval settled
    \<Rightarrow> (jsval, jsval) outcome" where
  "point_attempt rt op query ev =
     (case ev of
        Fulfils result \<Rightarrow>
          (case success_value op query result of
             Inr v \<Rightarrow> Resolve v
           | Inl e \<Rightarrow> errorHandler rt query (type_error rt))
      | Fails err \<Rightarrow> errorHandler rt query err)"

definition point :: "js_runtime \<Rightarrow> point_op \<Rightarrow> jsval \<Rightarrow> (jsval settled \<times> real) list
    \<Rightarrow> (jsval, jsval) chain" where
  "point rt op query events = run (point_attempt rt op) new_retryTimer query events"

section \<open>Notions used to state the properties\<close>

text \<open>A property read that cannot throw: \<^verbatim>\<open>undefined\<close> where \<open>get_prop\<close> throws.\<close>

definition field :: "jsval \<Rightarrow> string \<Rightarrow> jsval" where
  "field v k = (case get_prop v k of Inl e \<Rightarrow> JUndefined | Inr x \<Rightarrow> x)"

text \<open>
  The error values the normalizer accepts: neither \<^verbatim>\<open>null\<close> nor \<^verbatim>\<open>undefined\<close>, and with
  a \<^verbatim>\<open>toJSON\<close> property that is falsy (absent, for one) or a function whose result is
  neither \<^verbatim>\<open>null\<close> nor \<^verbatim>\<open>undefined\<close>. The errors of the Elasticsearch client and the
  exceptions of the engine are of this kind.
\<close>

definition normalizable :: "jsval \<Rightarrow> bool" where
  "normalizable err =
     (case get_prop err ''toJSON'' of
        Inl e \<Rightarrow> False
      | Inr tj \<Rightarrow> (case tj of JFun j \<Rightarrow> j \<noteq> JNull \<and> j \<noteq> JUndefined | _ \<Rightarrow> \<not> truthy tj))"

text \<open>
  The priority order as the specification words it: the serialized form's message if
  it has one, else the tagged text that embeds the serialized form; without a serialized
  form, the stack trace, else the embedded response, else the raw error value.
\<close>

definition normalize_spec :: "js_runtime \<Rightarrow> jsval \<Rightarrow> jsval" where
  "normalize_spec rt err =
     (case field err ''toJSON'' of
        JFun j \<Rightarrow>
          if truthy (field j ''msg'') then field j ''msg''
          else JStr (''Unknown ES Error Format '' @ stringify rt j)
      | _ \<Rightarrow>
          if truthy (field err ''stack'') then field err ''stack''
          else if truthy (field err ''response'') then field err ''response''
          else err)"

text \<open>An error whose body names the backpressure rejection type.\<close>

definition is_backpressure :: "jsval \<Rightarrow> bool" where
  "is_backpressure err =
     (lodash_get err ''body.error.type'' = JStr ''es_rejected_execution_exception'')"

text \<open>A client call that failed with a backpressure error.\<close>

definition backpressure_failure :: "'r settled \<Rightarrow> bool" where
  "backpressure_failure ev = (case ev of Fulfils r \<Rightarrow> False | Fails err \<Rightarrow> is_backpressure err)"

text \<open>
  The bounds the backoff range is to respect, and the invariant that yields them: from
  \<open>new_retryTimer\<close> on, the ceiling is twice the floor and the floor is a multiple of
  5000 between 5000 and 30000.
\<close>

definition range_ok :: "retryTimer \<Rightarrow> bool" where
  "range_ok t = (start t < limit t \<and> start t \<le> 30000 \<and> limit t \<le> 60000)"

definition range_inv :: "retryTimer \<Rightarrow> bool" where
  "range_inv t =
     (5000 \<le> start t \<and> start t \<le> 30000 \<and> limit t = 2 * start t \<and> 5000 dvd start t)"

text \<open>
  The three classes of bulk item errors. An item with an error is exactly one of
  ignorable, retryable and fatal.
\<close>

definition ignorable :: "bulk_item \<Rightarrow> bool" where
  "ignorable item =
     (case error item of
        None \<Rightarrow> False
      | Some e \<Rightarrow>
          status item = Some 409
          \<or> err_type e = Some ''document_already_exists_exception''
          \<or> err_type e = Some ''document_missing_exception'')"

definition retryable :: "bulk_item \<Rightarrow> bool" where
  "retryable item =
     (case error item of
        None \<Rightarrow> False
      | Some e \<Rightarrow>
          status item \<noteq> Some 409 \<and> err_type e = Some ''es_rejected_execution_exception'')"

definition fatal :: "bulk_item \<Rightarrow> bool" where
  "fatal item =
     (case error item of
        None \<Rightarrow> False
      | Some e \<Rightarrow>
          status item \<noteq> Some 409
          \<and> err_type e \<noteq> Some ''es_rejected_execution_exception''
          \<and> err_type e \<noteq> Some ''document_already_exists_exception''
          \<and> err_type e \<noteq> Some ''document_missing_exception'')"

text \<open>The reason a fatal item is reported with: \<^verbatim>\<open>type--reason\<close>.\<close>

definition fatal_reason :: "bulk_item \<Rightarrow> string" where
  "fatal_reason item =
     (case error item of
        None \<Rightarrow> []
      | Some e \<Rightarrow> tmpl (err_type e) @ ''--'' @ tmpl (err_reason e))"

text \<open>The request pair of the item at index \<open>i\<close>.\<close>

definition pair_of :: "jsval list \<Rightarrow> nat \<Rightarrow> jsval list" where
  "pair_of data i = [elem_at data (2 * i), elem_at data (2 * i + 1)]"

text \<open>The pairs of the retryable items among \<open>items\<close>, which start at index \<open>i\<close>.\<close>

fun retry_pairs :: "jsval list \<Rightarrow> nat \<Rightarrow> bulk_item list \<Rightarrow> jsval list" where
  "retry_pairs data i [] = []"
| "retry_pairs data i (item # rest) =
     (if retryable item then pair_of data i else []) @ retry_pairs data (i + 1) rest"

text \<open>An item whose error, if ignorable, is taken away.\<close>

definition forgiven :: "bulk_item \<Rightarrow> bulk_item" where
  "forgiven item = (if ignorable item then item\<lparr>error := None\<rparr> else item)"

text \<open>The reason types of the shard failures of a response, before \<^verbatim>\<open>_.uniq\<close>.\<close>

definition failure_types :: "search_response \<Rightarrow> string list" where
  "failure_types data = map (\<lambda>shard. rs_type (sf_reason shard)) (failures (r_shards data))"


section \<open>Lemmas: the normalizer\<close>

lemma get_prop_cases:
  "get_prop v k = Inl TypeError \<and> (v = JNull \<or> v = JUndefined)
   \<or> get_prop v k = Inr (field v k) \<and> v \<noteq> JNull \<and> v \<noteq> JUndefined"
  by (cases v) (simp_all add: field_def)

lemma parseError_normalizable:
  assumes "normalizable err"
  shows "parseError rt err = Inr (normalize_spec rt err)"
proof -
  from assms have nn: "err \<noteq> JNull" "err \<noteq> JUndefined"
    by (auto simp: normalizable_def)
  then have g: "\<And>k. get_prop err k = Inr (field err k)"
    using get_prop_cases [of err] by auto
  show ?thesis
  proof (cases "field err ''toJSON''")
    case (JFun j)
    with assms g have j: "j \<noteq> JNull" "j \<noteq> JUndefined"
      by (auto simp: normalizable_def)
    then have gj: "\<And>k. get_prop j k = Inr (field j k)"
      using get_prop_cases [of j] by auto
    show ?thesis
      by (simp add: parseError_def normalize_spec_def g gj JFun)
  qed (use assms g in \<open>simp_all add: parseError_def normalize_spec_def normalizable_def\<close>)
qed

lemma parseError_not_normalizable:
  assumes "\<not> normalizable err"
  shows "parseError rt err = Inl TypeError"
proof (cases "err = JNull \<or> err = JUndefined")
  case True
  then show ?thesis by (auto simp: parseError_def)
next
  case False
  then have g: "\<And>k. get_prop err k = Inr (field err k)"
    using get_prop_cases [of err] by auto
  show ?thesis
  proof (cases "field err ''toJSON''")
    case (JFun j)
    with assms g have "j = JNull \<or> j = JUndefined"
      by (auto simp: normalizable_def)
    then show ?thesis
      by (auto simp: parseError_def g JFun)
  qed (use assms g in \<open>auto simp: parseError_def normalizable_def\<close>)
qed

section \<open>Lemmas: chains of retries\<close>

lemma run_Retry:
  "handler p ev = Retry p' \<Longrightarrow>
   run handler t p ((ev, rnd) # events)
     = (run handler (snd (retry rnd t)) p' events)
         \<lparr>sent := p # sent (run handler (snd (retry rnd t)) p' events),
          delays := fst (retry rnd t) # delays (run handler (snd (retry rnd t)) p' events)\<rparr>"
  by (simp add: Let_def)

lemma run_retries_state:
  "list_all (\<lambda>(ev, rnd). handler p ev = Retry p) evs \<Longrightarrow>
   state (run handler t p (evs @ rest)) = state (run handler (after_uses t (map snd evs)) p rest)"
proof (induction evs arbitrary: t)
  case Nil
  then show ?case by simp
next
  case (Cons x evs)
  obtain ev rnd where x: "x = (ev, rnd)" by (cases x)
  with Cons.prems have r: "handler p ev = Retry p" and rest: "list_all (\<lambda>(ev, rnd). handler p ev = Retry p) evs"
    by simp_all
  show ?case
    by (simp add: x run_Retry [where handler = handler and p = p and ev = ev, OF r] Cons.IH [OF rest] del: run.simps)
qed

lemma run_retries_waiting:
  "list_all (\<lambda>(ev, rnd). handler p ev = Retry p) evs \<Longrightarrow>
   waiting (run handler t p (evs @ rest))
     = waiting (run handler (after_uses t (map snd evs)) p rest)"
proof (induction evs arbitrary: t)
  case Nil
  then show ?case by simp
next
  case (Cons x evs)
  obtain ev rnd where x: "x = (ev, rnd)" by (cases x)
  with Cons.prems have r: "handler p ev = Retry p" and rest: "list_all (\<lambda>(ev, rnd). handler p ev = Retry p) evs"
    by simp_all
  show ?case
    by (simp add: x run_Retry [where handler = handler and p = p and ev = ev, OF r] Cons.IH [OF rest] del: run.simps)
qed

lemma run_retries_timer:
  "list_all (\<lambda>(ev, rnd). handler p ev = Retry p) evs \<Longrightarrow>
   timer (run handler t p (evs @ rest)) = timer (run handler (after_uses t (map snd evs)) p rest)"
proof (induction evs arbitrary: t)
  case Nil
  then show ?case by simp
next
  case (Cons x evs)
  obtain ev rnd where x: "x = (ev, rnd)" by (cases x)
  with Cons.prems have r: "handler p ev = Retry p" and rest: "list_all (\<lambda>(ev, rnd). handler p ev = Retry p) evs"
    by simp_all
  show ?case
    by (simp add: x run_Retry [where handler = handler and p = p and ev = ev, OF r] Cons.IH [OF rest] del: run.simps)
qed

lemma run_retries_sent:
  "list_all (\<lambda>(ev, rnd). handler p ev = Retry p) evs \<Longrightarrow>
   sent (run handler t p (evs @ rest))
     = replicate (length evs) p @ sent (run handler (after_uses t (map snd evs)) p rest)"
proof (induction evs arbitrary: t)
  case Nil
  then show ?case by simp
next
  case (Cons x evs)
  obtain ev rnd where x: "x = (ev, rnd)" by (cases x)
  with Cons.prems have r: "handler p ev = Retry p" and rest: "list_all (\<lambda>(ev, rnd). handler p ev = Retry p) evs"
    by simp_all
  show ?case
    by (simp add: x run_Retry [where handler = handler and p = p and ev = ev, OF r] Cons.IH [OF rest] del: run.simps)
qed

lemma run_retries_delays:
  "list_all (\<lambda>(ev, rnd). handler p ev = Retry p) evs \<Longrightarrow>
   delays (run handler t p (evs @ rest))
     = map snd (uses t (map snd evs)) @ delays (run handler (after_uses t (map snd evs)) p rest)"
proof (induction evs arbitrary: t)
  case Nil
  then show ?case by simp
next
  case (Cons x evs)
  obtain ev rnd where x: "x = (ev, rnd)" by (cases x)
  with Cons.prems have r: "handler p ev = Retry p" and rest: "list_all (\<lambda>(ev, rnd). handler p ev = Retry p) evs"
    by simp_all
  show ?case
    by (simp add: x run_Retry [where handler = handler and p = p and ev = ev, OF r] Cons.IH [OF rest] del: run.simps)
qed

lemma run_sent_same:
  "(\<And>ev p'. handler p ev = Retry p' \<Longrightarrow> p' = p) \<Longrightarrow> set (sent (run handler t p evs)) = {p}"
proof (induction evs arbitrary: t)
  case Nil
  then show ?case by simp
next
  case (Cons x evs)
  obtain ev rnd where x: "x = (ev, rnd)" by (cases x)
  have IH: "set (sent (run handler u p evs)) = {p}" for u
    using Cons.prems by (rule Cons.IH)
  show ?case
  proof (cases "handler p ev")
    case (Retry p')
    then have "p' = p" by (rule Cons.prems)
    with Retry have r: "handler p ev = Retry p" by simp
    show ?thesis
      by (simp add: x run_Retry [where handler = handler and p = p and ev = ev, OF r] IH
            del: run.simps)
  qed (simp_all add: x)
qed

section \<open>Lemmas: the classifier loop\<close>

lemma filter_loop_no_fatal:
  "\<not> list_ex fatal its \<Longrightarrow>
   filter_loop data i its acc = (False, [], acc @ retry_pairs data i its)"
proof (induction its arbitrary: i acc)
  case Nil
  then show ?case by simp
next
  case (Cons item rest)
  then have nf: "\<not> fatal item" and rest: "\<not> list_ex fatal rest" by simp_all
  note IH = Cons.IH [OF rest]
  show ?case
  proof (cases "error item")
    case None
    then show ?thesis by (simp add: IH retryable_def)
  next
    case (Some e)
    with nf show ?thesis
      by (auto simp: IH retryable_def fatal_def pair_of_def DOCUMENT_EXISTS_def mult.commute)
  qed
qed

lemma filter_loop_first_fatal:
  "\<not> list_ex fatal pre \<Longrightarrow> fatal f \<Longrightarrow>
   filter_loop data i (pre @ f # post) acc
     = (True, fatal_reason f, acc @ retry_pairs data i pre)"
proof (induction pre arbitrary: i acc)
  case Nil
  then show ?case
    by (auto simp: fatal_def fatal_reason_def DOCUMENT_EXISTS_def split: option.splits)
next
  case (Cons item rest)
  then have nf: "\<not> fatal item" and rest: "\<not> list_ex fatal rest" by simp_all
  note IH = Cons.IH [OF rest Cons.prems(2)]
  show ?case
  proof (cases "error item")
    case None
    then show ?thesis by (simp add: IH retryable_def)
  next
    case (Some e)
    with nf show ?thesis
      by (auto simp: IH retryable_def fatal_def pair_of_def DOCUMENT_EXISTS_def mult.commute)
  qed
qed

lemma retry_pairs_index:
  "retry_pairs data i its
     = concat (map (\<lambda>k. pair_of data (i + k)) (filter (\<lambda>k. retryable (its ! k)) [0..<length its]))"
proof (induction its arbitrary: i)
  case Nil
  then show ?case by simp
next
  case (Cons item rest)
  have up: "[0..<length (item # rest)] = 0 # map Suc [0..<length rest]"
    by (simp add: upt_conv_Cons map_Suc_upt del: upt_Suc)
  show ?case
    unfolding up
    by (simp add: Cons.IH filter_map comp_def del: upt_Suc)
qed

lemma retryable_not_fatal: "retryable item \<Longrightarrow> \<not> fatal item \<and> \<not> ignorable item"
  by (auto simp: retryable_def fatal_def ignorable_def split: option.splits)

lemma item_classes:
  "error item \<noteq> None \<Longrightarrow> (ignorable item \<or> retryable item \<or> fatal item)"
  by (auto simp: retryable_def fatal_def ignorable_def split: option.splits)

lemma filterResponse_first_fatal:
  assumes "items results = pre @ f # post" "\<not> list_ex fatal pre" "fatal f"
  shows "filterResponse data results
           = \<lparr>f_data = [], f_error = True, f_reason = Some (fatal_reason f)\<rparr>"
  using filter_loop_first_fatal [OF assms(2,3), of data 0 post "[]"]
  by (simp add: filterResponse_def assms(1))

lemma filterResponse_no_fatal:
  assumes "\<not> list_ex fatal (items results)"
  shows "filterResponse data results
           = \<lparr>f_data = retry_pairs data 0 (items results), f_error = False, f_reason = None\<rparr>"
  using filter_loop_no_fatal [OF assms, of data 0 "[]"]
  by (simp add: filterResponse_def)

lemma find_first:
  "find P xs = Some f \<Longrightarrow> \<exists>pre post. xs = pre @ f # post \<and> \<not> list_ex P pre \<and> P f"
proof (induction xs)
  case Nil
  then show ?case by simp
next
  case (Cons x xs)
  show ?case
  proof (cases "P x")
    case True
    with Cons.prems have "x # xs = [] @ f # xs \<and> \<not> list_ex P [] \<and> P f" by simp
    then show ?thesis by blast
  next
    case False
    with Cons obtain pre post where "xs = pre @ f # post" "\<not> list_ex P pre" "P f" by auto
    with False have "x # xs = (x # pre) @ f # post \<and> \<not> list_ex P (x # pre) \<and> P f" by simp
    then show ?thesis by blast
  qed
qed

lemma find_exists: "list_ex P xs \<Longrightarrow> \<exists>f. find P xs = Some f"
  by (induction xs) auto

lemma filter_loop_ignorable:
  "ignorable item \<Longrightarrow> filter_loop data i (item # rest) acc = filter_loop data (i + 1) rest acc"
  by (auto simp: ignorable_def DOCUMENT_EXISTS_def split: option.splits)

lemma filter_loop_success:
  "error item = None \<Longrightarrow> filter_loop data i (item # rest) acc = filter_loop data (i + 1) rest acc"
  by simp

lemma filter_loop_cong_head:
  "error item \<noteq> None \<Longrightarrow> \<not> ignorable item \<Longrightarrow>
   filter_loop data (i + 1) rest = filter_loop data (i + 1) rest' \<Longrightarrow>
   filter_loop data i (item # rest) acc = filter_loop data i (item # rest') acc"
  by (auto simp: ignorable_def DOCUMENT_EXISTS_def split: option.splits)

lemma filter_loop_forgiven:
  "filter_loop data i (map forgiven its) acc = filter_loop data i its acc"
proof (induction its arbitrary: i acc)
  case Nil
  then show ?case by simp
next
  case (Cons item rest)
  have IH: "filter_loop data (i + 1) (map forgiven rest) = filter_loop data (i + 1) rest"
    by (rule ext) (rule Cons.IH)
  show ?case
  proof (cases "ignorable item")
    case True
    then have "filter_loop data i (map forgiven (item # rest)) acc
                 = filter_loop data (i + 1) (map forgiven rest) acc"
      by (simp add: forgiven_def)
    also have "\<dots> = filter_loop data (i + 1) rest acc" by (rule Cons.IH)
    also have "\<dots> = filter_loop data i (item # rest) acc"
      using True by (simp only: filter_loop_ignorable)
    finally show ?thesis .
  next
    case False
    then have f: "forgiven item = item" by (simp add: forgiven_def)
    show ?thesis
    proof (cases "error item")
      case None
      then show ?thesis by (simp add: f Cons.IH)
    next
      case (Some e)
      then have "error item \<noteq> None" by simp
      from filter_loop_cong_head [OF this False IH]
      show ?thesis by (simp add: f)
    qed
  qed
qed

lemma retry_pairs_none:
  "list_all (\<lambda>item. \<not> retryable item) its \<Longrightarrow> retry_pairs data i its = []"
  by (induction its arbitrary: i) simp_all

lemma ignorable_not_fatal: "ignorable item \<Longrightarrow> \<not> fatal item \<and> \<not> retryable item"
  by (auto simp: retryable_def fatal_def ignorable_def split: option.splits)

lemma success_not_fatal: "error item = None \<Longrightarrow> \<not> fatal item \<and> \<not> retryable item"
  by (simp add: retryable_def fatal_def)

lemma filterResponse_all_ignorable:
  assumes "list_all (\<lambda>item. error item = None \<or> ignorable item) (items results)"
  shows "filterResponse data results = \<lparr>f_data = [], f_error = False, f_reason = None\<rparr>"
proof -
  from assms have a: "\<forall>item \<in> set (items results). \<not> fatal item \<and> \<not> retryable item"
    using ignorable_not_fatal success_not_fatal by (auto simp: list_all_iff)
  then have nf: "\<not> list_ex fatal (items results)" by (simp add: list_ex_iff)
  from a have "list_all (\<lambda>item. \<not> retryable item) (items results)" by (simp add: list_all_iff)
  then have "retry_pairs data 0 (items results) = []" by (rule retry_pairs_none)
  with filterResponse_no_fatal [OF nf, of data] show ?thesis by simp
qed

lemma sendData_never_retries_on_failure: "sendData rt data (Fails err) \<noteq> Retry p"
  by (simp add: sendData_def bulk_catch_def split: sum.splits)

section \<open>Lemmas: distinct reasons\<close>

lemma uniq_loop_set: "set (uniq_loop acc xs) = set acc \<union> set xs"
  by (induction xs arbitrary: acc) auto

lemma uniq_loop_distinct: "distinct acc \<Longrightarrow> distinct (uniq_loop acc xs)"
  by (induction xs arbitrary: acc) auto

lemma uniq_set: "set (uniq xs) = set xs"
  by (simp add: uniq_def uniq_loop_set)

lemma uniq_distinct: "distinct (uniq xs)"
  by (simp add: uniq_def uniq_loop_distinct)

lemma only_backpressure_iff:
  assumes "distinct rs"
  shows "(length rs > 1 \<or> (case rs of [] \<Rightarrow> True | r0 # _ \<Rightarrow> r0 \<noteq> b)) \<longleftrightarrow> set rs \<noteq> {b}"
proof (cases rs)
  case Nil
  then show ?thesis by simp
next
  case (Cons r0 rest)
  show ?thesis
  proof (cases rest)
    case Nil
    with Cons show ?thesis by auto
  next
    case (Cons r1 rest')
    with \<open>rs = r0 # rest\<close> assms have "r0 \<noteq> r1" "r0 \<in> set rs" "r1 \<in> set rs" by auto
    then have "set rs \<noteq> {b}" by auto
    with Cons \<open>rs = r0 # rest\<close> show ?thesis by simp
  qed
qed

lemma shard_reasons_set: "set (shard_reasons data) = set (failure_types data)"
  by (simp add: shard_reasons_def failure_types_def uniq_set)

lemma shard_reasons_distinct: "distinct (shard_reasons data)"
  by (simp add: shard_reasons_def uniq_distinct)

lemma shard_test:
  "(length (shard_reasons data) > 1
     \<or> (case shard_reasons data of [] \<Rightarrow> True
         | r0 # _ \<Rightarrow> r0 \<noteq> ''es_rejected_execution_exception''))
   \<longleftrightarrow> set (failure_types data) \<noteq> {''es_rejected_execution_exception''}"
  using only_backpressure_iff [OF shard_reasons_distinct [of data]]
  by (simp only: shard_reasons_set)

lemma search_then_failed:
  assumes "failed (r_shards data) > 0"
  shows "search_then full q data =
     (if set (failure_types data) = {''es_rejected_execution_exception''} then Retry q
      else Reject (JStr (join '' | '' (shard_reasons data))))"
  using assms shard_test [of data] by (simp add: search_then_def Let_def)

lemma count_then_failed:
  assumes "failed (r_shards data) > 0"
  shows "count_then q data =
     (if set (failure_types data) = {''es_rejected_execution_exception''} then Retry q
      else Reject (JStr (join '' | '' (shard_reasons data))))"
  using assms shard_test [of data] by (simp add: count_then_def Let_def)

section \<open>Lemmas: callbacks of search and count\<close>

lemma search_catch_no_retry: "search_catch rt err \<noteq> Retry p"
  by (simp add: search_catch_def split: sum.splits)

lemma search_then_retry_same: "search_then full q data = Retry p \<Longrightarrow> p = q"
  by (simp add: search_then_def Let_def split: if_splits)

lemma count_then_retry_same: "count_then q data = Retry p \<Longrightarrow> p = q"
  by (simp add: count_then_def Let_def split: if_splits)

lemma search_attempt_retry_same: "search_attempt rt full q ev = Retry p \<Longrightarrow> p = q"
  by (cases ev) (auto simp: search_attempt_def search_catch_no_retry dest: search_then_retry_same)

lemma count_attempt_retry_same: "count_attempt rt q ev = Retry p \<Longrightarrow> p = q"
  by (cases ev) (auto simp: count_attempt_def search_catch_no_retry dest: count_then_retry_same)

lemma search_catch_unsettled:
  assumes "lodash_get err ''body.error.type'' = JStr ''reduce_search_phase_exception''"
    and "get_path err [''body'', ''error'', ''root_cause''] = Inr root_cause"
    and "every_rejected (collection root_cause) = Inr False"
  shows "search_catch rt err = NoSettle"
  by (simp add: search_catch_def assms del: get_path.simps)

section \<open>Lemmas: double rounding\<close>

lemma pow2_pos: "0 < pow2 e"
  by (simp add: pow2_def)

lemma pow2_add1: "pow2 (e + 1) = 2 * pow2 e"
proof -
  consider "0 \<le> e" | "e = -1" | "e < -1" by linarith
  then show ?thesis
  proof cases
    case 1
    then show ?thesis by (simp add: pow2_def nat_add_distrib)
  next
    case 2
    then show ?thesis by (simp add: pow2_def)
  next
    case 3
    then have "nat (- e) = Suc (nat (- e - 1))" by simp
    with 3 show ?thesis by (simp add: pow2_def)
  qed
qed

lemma pow2_mono: "a \<le> b \<Longrightarrow> pow2 a \<le> pow2 b"
proof -
  have "pow2 a \<le> pow2 (a + int n)" for n
  proof (induction n)
    case 0
    then show ?case by simp
  next
    case (Suc n)
    have "a + int (Suc n) = (a + int n) + 1" by simp
    then have "pow2 (a + int (Suc n)) = 2 * pow2 (a + int n)"
      by (simp only: pow2_add1)
    with Suc pow2_pos [of "a + int n"] show ?case by simp
  qed
  from this [of "nat (b - a)"] show "a \<le> b \<Longrightarrow> pow2 a \<le> pow2 b" by simp
qed

lemma pow2_less_imp: "pow2 a < pow2 b \<Longrightarrow> a < b"
  using pow2_mono [of b a] by (cases "a < b") auto

lemma binade_from_stop: "x < pow2 (e + 1) \<Longrightarrow> binade_from k e x = e"
  by (cases k) simp_all

lemma binade_from_eq:
  "pow2 E \<le> x \<Longrightarrow> x < pow2 (E + 1) \<Longrightarrow> e \<le> E \<Longrightarrow> E \<le> e + int k \<Longrightarrow>
   binade_from k e x = E"
proof (induction k arbitrary: e)
  case 0
  then show ?case by simp
next
  case (Suc k)
  show ?case
  proof (cases "pow2 (e + 1) \<le> x")
    case True
    with Suc.prems(2) have "pow2 (e + 1) < pow2 (E + 1)" by simp
    then have "e + 1 \<le> E" using pow2_less_imp by fastforce
    with Suc.prems have "binade_from k (e + 1) x = E" by (intro Suc.IH) simp_all
    with True show ?thesis by simp
  next
    case False
    with Suc.prems(1) have "pow2 E < pow2 (e + 1)" by simp
    then have "E < e + 1" by (rule pow2_less_imp)
    with Suc.prems(3) have "E = e" by simp
    with False show ?thesis by simp
  qed
qed

lemma binade_eq:
  "pow2 E \<le> x \<Longrightarrow> x < pow2 (E + 1) \<Longrightarrow> - 1022 \<le> E \<Longrightarrow> E \<le> 1023 \<Longrightarrow> binade x = E"
  unfolding binade_def by (rule binade_from_eq) simp_all

lemma binade_from_reached:
  "binade_from k e x = e \<or> pow2 (binade_from k e x) \<le> x"
proof (induction k arbitrary: e)
  case 0
  then show ?case by simp
next
  case (Suc k)
  show ?case
  proof (cases "pow2 (e + 1) \<le> x")
    case True
    with Suc [of "e + 1"] show ?thesis by auto
  next
    case False
    then show ?thesis by simp
  qed
qed

lemma binade_below: "x < pow2 53 \<Longrightarrow> binade x \<le> 52"
proof -
  assume x: "x < pow2 53"
  from binade_from_reached [of 2045 "- 1022" x]
  consider "binade x = - 1022" | "pow2 (binade x) \<le> x" by (auto simp: binade_def)
  then show ?thesis
  proof cases
    case 1
    then show ?thesis by simp
  next
    case 2
    with x have "pow2 (binade x) < pow2 53" by simp
    then have "binade x < 53" by (rule pow2_less_imp)
    then show ?thesis by simp
  qed
qed

lemma round_half_even_ge: "\<lfloor>q\<rfloor> \<le> round_half_even q"
  by (simp add: round_half_even_def Let_def)

lemma round_half_even_le: "q \<le> of_int j \<Longrightarrow> round_half_even q \<le> j"
proof -
  assume q: "q \<le> of_int j"
  show ?thesis
  proof (cases "q = of_int \<lfloor>q\<rfloor>")
    case True
    then have "round_half_even q = \<lfloor>q\<rfloor>" by (simp add: round_half_even_def Let_def)
    with q show ?thesis by (simp add: floor_le_iff le_floor_iff)
  next
    case False
    then have "of_int \<lfloor>q\<rfloor> < q" using of_int_floor_le [of q] by linarith
    with q have "of_int \<lfloor>q\<rfloor> < (of_int j :: real)" by linarith
    then have "\<lfloor>q\<rfloor> < j" by simp
    moreover have "round_half_even q \<le> \<lfloor>q\<rfloor> + 1" by (simp add: round_half_even_def Let_def)
    ultimately show ?thesis by linarith
  qed
qed

text \<open>Below 2^53 the spacing of doubles is at most 1: rounding never crosses an integer.\<close>

lemma round_double_between:
  assumes "0 \<le> x" "x < pow2 53"
  shows "(of_int a \<le> x \<longrightarrow> of_int a \<le> round_double x)
       \<and> (x \<le> of_int b \<longrightarrow> round_double x \<le> of_int b)"
proof (cases "x = 0")
  case True
  then show ?thesis by (simp add: round_double_def)
next
  case False
  with assms have pos: "0 < x" by simp
  define n where "n = nat (52 - binade x)"
  have e: "binade x - 52 \<le> 0" using binade_below [OF assms(2)] by simp
  then have u: "pow2 (binade x - 52) = 1 / 2 ^ n"
    by (auto simp: pow2_def n_def)
  have rd: "round_double x = of_int (round_half_even (x * 2 ^ n)) / 2 ^ n"
    using pos by (simp add: round_double_def Let_def u)
  have lo: "of_int a \<le> round_double x" if "of_int a \<le> x"
  proof -
    from that have "of_int (a * 2 ^ n) \<le> x * 2 ^ n" by simp
    then have "a * 2 ^ n \<le> \<lfloor>x * 2 ^ n\<rfloor>" by (simp add: le_floor_iff)
    with round_half_even_ge [of "x * 2 ^ n"] have "a * 2 ^ n \<le> round_half_even (x * 2 ^ n)"
      by linarith
    then have "(of_int (a * 2 ^ n) :: real) \<le> of_int (round_half_even (x * 2 ^ n))"
      by (simp only: of_int_le_iff)
    then show ?thesis by (simp add: rd field_simps)
  qed
  have hi: "round_double x \<le> of_int b" if "x \<le> of_int b"
  proof -
    from that have "x * 2 ^ n \<le> of_int (b * 2 ^ n)" by simp
    then have "round_half_even (x * 2 ^ n) \<le> b * 2 ^ n" by (rule round_half_even_le)
    then have "(of_int (round_half_even (x * 2 ^ n)) :: real) \<le> of_int (b * 2 ^ n)"
      by (simp only: of_int_le_iff)
    then show ?thesis by (simp add: rd field_simps)
  qed
  from lo hi show ?thesis by blast
qed

lemma round_double_int:
  assumes "0 \<le> n" "n < 2 ^ 53"
  shows "round_double (of_int n) = of_int n"
proof -
  have "(of_int n :: real) < pow2 53" using assms(2) by (simp add: pow2_def)
  from round_double_between [OF _ this, of n n] assms(1) show ?thesis by simp
qed

lemma round_double_eval:
  assumes "0 < x" "pow2 E \<le> x" "x < pow2 (E + 1)" "- 1022 \<le> E" "E \<le> 1023"
  shows "round_double x = of_int (round_half_even (x / pow2 (E - 52))) * pow2 (E - 52)"
  using assms(1) binade_eq [OF assms(2-5)] by (simp add: round_double_def Let_def)

lemma round_half_even_near:
  assumes "of_int n - 1 / 2 < q" "q < of_int n + 1 / 2"
  shows "round_half_even q = n"
proof (cases "q < of_int n")
  case True
  with assms have "\<lfloor>q\<rfloor> = n - 1" by (simp add: floor_eq_iff)
  with assms show ?thesis by (simp add: round_half_even_def Let_def)
next
  case False
  with assms have "\<lfloor>q\<rfloor> = n" by (simp add: floor_eq_iff)
  with assms show ?thesis by (simp add: round_half_even_def Let_def)
qed

lemma round_half_even_tie:
  assumes "q = of_int n - 1 / 2" "even n"
  shows "round_half_even q = n"
proof -
  from assms(1) have "\<lfloor>q\<rfloor> = n - 1" by (simp add: floor_eq_iff)
  with assms show ?thesis by (simp add: round_half_even_def Let_def)
qed

lemma round_double_zero: "round_double 0 = 0"
  by (simp add: round_double_def)

lemma round_double_numeral:
  "(numeral k :: int) < 2 ^ 53 \<Longrightarrow> round_double (numeral k) = numeral k"
  using round_double_int [of "numeral k"] by simp

section \<open>Properties: transport errors of search and count\<close>

text \<open>
  C1 does not hold of the code. When a failure of the client call reports a
  \<^verbatim>\<open>reduce_search_phase_exception\<close> and some root cause is not a backpressure
  rejection, the \<^verbatim>\<open>.catch\<close> callback of \<open>search\<close> and of \<open>count\<close> returns without
  rejecting, resolving or rescheduling: only the one request was issued, no client call
  is outstanding, and the promise is pending whatever happens later.
\<close>

theorem reduce_phase_failure_unsettled:
  assumes "lodash_get err ''body.error.type'' = JStr ''reduce_search_phase_exception''"
    and "get_path err [''body'', ''error'', ''root_cause''] = Inr root_cause"
    and "every_rejected (collection root_cause) = Inr False"
  shows "search_attempt rt full query (Fails err) = NoSettle
       \<and> count_attempt rt query (Fails err) = NoSettle
       \<and> state (search_chain rt full query ((Fails err, rnd) # later)) = Pending
       \<and> \<not> waiting (search_chain rt full query ((Fails err, rnd) # later))
       \<and> sent (search_chain rt full query ((Fails err, rnd) # later)) = [query]
       \<and> state (count_chain rt query ((Fails err, rnd) # later)) = Pending
       \<and> \<not> waiting (count_chain rt query ((Fails err, rnd) # later))
       \<and> sent (count_chain rt query ((Fails err, rnd) # later)) = [query]"
  by (simp add: search_chain_def count_chain_def search_attempt_def count_attempt_def
        search_catch_unsettled [OF assms])

theorem reduce_phase_failure_unsettled_witness:
  "state (search_chain \<lparr>stringify = (\<lambda>j. ''{}''), to_string = (\<lambda>v. []), type_error = JUndefined\<rparr>
      False (7::nat)
      ((Fails (JObj [(''body'', JObj [(''error'', JObj
           [(''type'', JStr ''reduce_search_phase_exception''),
            (''root_cause'', JArr [JObj [(''type'', JStr ''search_parse_exception'')]])])])]), 0)
       # [(Fails (JObj [(''stack'', JStr ''Error: x'')]), 0)])) = Pending
   \<and> \<not> waiting (search_chain \<lparr>stringify = (\<lambda>j. ''{}''), to_string = (\<lambda>v. []), type_error = JUndefined\<rparr>
      False (7::nat)
      ((Fails (JObj [(''body'', JObj [(''error'', JObj
           [(''type'', JStr ''reduce_search_phase_exception''),
            (''root_cause'', JArr [JObj [(''type'', JStr ''search_parse_exception'')]])])])]), 0)
       # [(Fails (JObj [(''stack'', JStr ''Error: x'')]), 0)]))
   \<and> state (count_chain \<lparr>stringify = (\<lambda>j. ''{}''), to_string = (\<lambda>v. []), type_error = JUndefined\<rparr>
      (7::nat)
      ((Fails (JObj [(''body'', JObj [(''error'', JObj
           [(''type'', JStr ''reduce_search_phase_exception''),
            (''root_cause'', JArr [JObj [(''type'', JStr ''search_parse_exception'')]])])])]), 0)
       # [(Fails (JObj [(''stack'', JStr ''Error: x'')]), 0)])) = Pending"
  using reduce_phase_failure_unsettled [of
      "JObj [(''body'', JObj [(''error'', JObj
           [(''type'', JStr ''reduce_search_phase_exception''),
            (''root_cause'', JArr [JObj [(''type'', JStr ''search_parse_exception'')]])])])]"
      "JArr [JObj [(''type'', JStr ''search_parse_exception'')]]"
      "\<lparr>stringify = (\<lambda>j. ''{}''), to_string = (\<lambda>v. []), type_error = JUndefined\<rparr>"
      False "7::nat" 0 "[(Fails (JObj [(''stack'', JStr ''Error: x'')]), 0)]"]
  by (simp add: lodash_get_def)

section \<open>Properties: fatal items\<close>

text \<open>
  C2. When some item of the bulk result is fatal (it has an error, its status is not 409
  and its error type is none of the backpressure, already-exists and missing types),
  the classifier reports the first fatal item \<open>f\<close>: \<open>error\<close> is true, the reason is
  \<open>f\<close>'s \<^verbatim>\<open>type--reason\<close>, and the retry set is empty, whatever the items before and
  after \<open>f\<close> are. A bulk response with the \<^verbatim>\<open>errors\<close> flag set then makes \<open>bulkSend\<close>
  reject with that reason, without another request.
\<close>

theorem bulk_first_fatal_wins:
  assumes "list_ex fatal (items results)"
  shows "\<exists>f. find fatal (items results) = Some f
       \<and> filterResponse data results
           = \<lparr>f_data = [], f_error = True, f_reason = Some (fatal_reason f)\<rparr>
       \<and> (errors results \<longrightarrow>
            bulk_then data results = Reject (JStr (fatal_reason f))
            \<and> state (bulkSend rt data ((Fulfils results, rnd) # later))
                = Rejected (JStr (fatal_reason f))
            \<and> sent (bulkSend rt data ((Fulfils results, rnd) # later)) = [data])"
proof -
  from assms obtain f where f: "find fatal (items results) = Some f"
    using find_exists [of fatal "items results"] by blast
  then obtain pre post where d: "items results = pre @ f # post" "\<not> list_ex fatal pre" "fatal f"
    using find_first [of fatal "items results" f] by blast
  note fr = filterResponse_first_fatal [OF d, of data]
  have bt: "bulk_then data results = Reject (JStr (fatal_reason f))" if "errors results"
    using that by (simp add: bulk_then_def bulk_then_with_def fr)
  then have "state (bulkSend rt data ((Fulfils results, rnd) # later))
                = Rejected (JStr (fatal_reason f))
            \<and> sent (bulkSend rt data ((Fulfils results, rnd) # later)) = [data]"
    if "errors results"
    using that by (simp add: bulkSend_def sendData_def)
  with f fr bt show ?thesis by (intro exI [of _ f]) simp
qed

theorem bulk_first_fatal_wins_witness:
  "filterResponse [JStr ''a0'', JStr ''d0'', JStr ''a1'', JStr ''d1'', JStr ''a2'', JStr ''d2'']
     \<lparr>errors = True, items =
        [\<lparr>action = ''index'', status = Some 429, error = Some
            \<lparr>err_type = Some ''es_rejected_execution_exception'', err_reason = Some ''queue full''\<rparr>\<rparr>,
         \<lparr>action = ''index'', status = Some 400, error = Some
            \<lparr>err_type = Some ''mapper_parsing_exception'', err_reason = Some ''bad field''\<rparr>\<rparr>,
         \<lparr>action = ''index'', status = Some 429, error = Some
            \<lparr>err_type = Some ''es_rejected_execution_exception'', err_reason = Some ''queue full''\<rparr>\<rparr>]\<rparr>
     = \<lparr>f_data = [], f_error = True, f_reason = Some ''mapper_parsing_exception--bad field''\<rparr>
   \<and> state (bulkSend \<lparr>stringify = (\<lambda>j. ''{}''), to_string = (\<lambda>v. []), type_error = JUndefined\<rparr>
       [JStr ''a0'', JStr ''d0'', JStr ''a1'', JStr ''d1'', JStr ''a2'', JStr ''d2'']
       ((Fulfils \<lparr>errors = True, items =
        [\<lparr>action = ''index'', status = Some 429, error = Some
            \<lparr>err_type = Some ''es_rejected_execution_exception'', err_reason = Some ''queue full''\<rparr>\<rparr>,
         \<lparr>action = ''index'', status = Some 400, error = Some
            \<lparr>err_type = Some ''mapper_parsing_exception'', err_reason = Some ''bad field''\<rparr>\<rparr>,
         \<lparr>action = ''index'', status = Some 429, error = Some
            \<lparr>err_type = Some ''es_rejected_execution_exception'', err_reason = Some ''queue full''\<rparr>\<rparr>]\<rparr>,
         0) # []))
     = Rejected (JStr ''mapper_parsing_exception--bad field'')"
  using bulk_first_fatal_wins [of
     "\<lparr>errors = True, items =
        [\<lparr>action = ''index'', status = Some 429, error = Some
            \<lparr>err_type = Some ''es_rejected_execution_exception'', err_reason = Some ''queue full''\<rparr>\<rparr>,
         \<lparr>action = ''index'', status = Some 400, error = Some
            \<lparr>err_type = Some ''mapper_parsing_exception'', err_reason = Some ''bad field''\<rparr>\<rparr>,
         \<lparr>action = ''index'', status = Some 429, error = Some
            \<lparr>err_type = Some ''es_rejected_execution_exception'', err_reason = Some ''queue full''\<rparr>\<rparr>]\<rparr>"
     "[JStr ''a0'', JStr ''d0'', JStr ''a1'', JStr ''d1'', JStr ''a2'', JStr ''d2'']"
     "\<lparr>stringify = (\<lambda>j. ''{}''), to_string = (\<lambda>v. []), type_error = JUndefined\<rparr>" 0 "[]"]
  by (simp add: fatal_def fatal_reason_def tmpl_def)

section \<open>Properties: the retry set\<close>

text \<open>
  C3 (as amended). When no item of the bulk result is fatal, the retry set is, in the
  order of the items, the request pairs at positions \<open>2i\<close> and \<open>2i + 1\<close> of exactly
  the items \<open>i\<close> that are retryable (an error of the backpressure type, status not
  409), index 0 included; successes and ignorable errors contribute nothing. A position
  past the end of the request body reads as \<^verbatim>\<open>undefined\<close>.
\<close>

theorem retry_set_exact:
  assumes "\<not> list_ex fatal (items results)"
  shows "f_error (filterResponse data results) = False
       \<and> f_data (filterResponse data results)
           = concat (map (pair_of data)
               (filter (\<lambda>i. retryable (items results ! i)) [0..<length (items results)]))"
  using retry_pairs_index [of data 0 "items results"]
  by (simp add: filterResponse_no_fatal [OF assms])

theorem retry_set_exact_witness:
  "f_data (filterResponse [JStr ''a0'', JStr ''d0'', JStr ''a1'', JStr ''d1'', JStr ''a2'', JStr ''d2'']
     \<lparr>errors = True, items =
        [\<lparr>action = ''index'', status = None, error = Some
            \<lparr>err_type = Some ''es_rejected_execution_exception'', err_reason = None\<rparr>\<rparr>,
         \<lparr>action = ''index'', status = Some 201, error = None\<rparr>,
         \<lparr>action = ''index'', status = Some 429, error = Some
            \<lparr>err_type = Some ''es_rejected_execution_exception'', err_reason = Some ''queue full''\<rparr>\<rparr>,
         \<lparr>action = ''create'', status = Some 409, error = Some
            \<lparr>err_type = Some ''es_rejected_execution_exception'', err_reason = None\<rparr>\<rparr>]\<rparr>)
     = [JStr ''a0'', JStr ''d0'', JStr ''a2'', JStr ''d2'']"
  using retry_set_exact [of
     "\<lparr>errors = True, items =
        [\<lparr>action = ''index'', status = None, error = Some
            \<lparr>err_type = Some ''es_rejected_execution_exception'', err_reason = None\<rparr>\<rparr>,
         \<lparr>action = ''index'', status = Some 201, error = None\<rparr>,
         \<lparr>action = ''index'', status = Some 429, error = Some
            \<lparr>err_type = Some ''es_rejected_execution_exception'', err_reason = Some ''queue full''\<rparr>\<rparr>,
         \<lparr>action = ''create'', status = Some 409, error = Some
            \<lparr>err_type = Some ''es_rejected_execution_exception'', err_reason = None\<rparr>\<rparr>]\<rparr>"
     "[JStr ''a0'', JStr ''d0'', JStr ''a1'', JStr ''d1'', JStr ''a2'', JStr ''d2'']"]
  by (simp add: fatal_def retryable_def pair_of_def elem_at_def upt_rec [of 0] upt_rec [of 1]
        upt_rec [of 2] upt_rec [of 3])

text \<open>
  C3 as stated fails when a fatal item is present: the first item below is retryable,
  yet the retry set returned is empty.
\<close>

theorem retry_set_counterexample:
  "retryable \<lparr>action = ''index'', status = Some 429, error = Some
            \<lparr>err_type = Some ''es_rejected_execution_exception'', err_reason = Some ''queue full''\<rparr>\<rparr>
   \<and> f_data (filterResponse [JStr ''a0'', JStr ''d0'', JStr ''a1'', JStr ''d1'']
     \<lparr>errors = True, items =
        [\<lparr>action = ''index'', status = Some 429, error = Some
            \<lparr>err_type = Some ''es_rejected_execution_exception'', err_reason = Some ''queue full''\<rparr>\<rparr>,
         \<lparr>action = ''index'', status = Some 400, error = Some
            \<lparr>err_type = Some ''mapper_parsing_exception'', err_reason = Some ''bad field''\<rparr>\<rparr>]\<rparr>)
     = []"
  by (simp add: retryable_def filterResponse_def DOCUMENT_EXISTS_def)

section \<open>Properties: the backoff range\<close>

lemma range_inv_new: "range_inv new_retryTimer"
  by (simp add: range_inv_def new_retryTimer_def)

lemma range_inv_ok: "range_inv t \<Longrightarrow> range_ok t"
  by (simp add: range_inv_def range_ok_def)

lemma range_inv_widen: "range_inv t \<Longrightarrow> range_inv (widen t)"
  unfolding range_inv_def widen_def Let_def
  by auto

lemma widen_mono: "start t \<le> start (widen t) \<and> limit t \<le> limit (widen t)"
  by (simp add: widen_def Let_def)

lemma retry_delay_bounds:
  assumes "0 \<le> rnd" "rnd < 1" "range_inv t"
  shows "start t \<le> retry_delay rnd t \<and> retry_delay rnd t \<le> limit t"
proof -
  let ?s = "of_int (start t) :: real"
  from assms(3) have s: "5000 \<le> start t" "start t \<le> 30000" and l: "limit t = 2 * start t"
    by (simp_all add: range_inv_def)
  have w: "round_double (of_int (limit t) - of_int (start t)) = ?s"
    using s round_double_int [of "start t"] by (simp add: l)
  let ?p = "round_double (rnd * ?s)"
  have x0: "0 \<le> rnd * ?s" using assms(1) s by simp
  have x1: "rnd * ?s \<le> ?s" using assms(2) s by (simp add: mult_left_le_one_le)
  have sr: "?s \<le> 30000" using s by simp
  have x2: "rnd * ?s < pow2 53" using x1 sr by (simp add: pow2_def)
  have p0: "0 \<le> ?p" using round_double_between [OF x0 x2, of 0 0] x0 by simp
  have p1: "?p \<le> ?s" using round_double_between [OF x0 x2, of 0 "start t"] x1 by simp
  let ?y = "?p + ?s"
  have y0: "0 \<le> ?y" using p0 s by simp
  have y1: "?y < pow2 53" using p1 sr by (simp add: pow2_def)
  have y2: "of_int (start t) \<le> ?y" using p0 by simp
  have y3: "?y \<le> of_int (limit t)" using p1 by (simp add: l)
  have r0: "of_int (start t) \<le> round_double ?y"
    using round_double_between [OF y0 y1, of "start t" 0] y2 by simp
  have r1: "round_double ?y \<le> of_int (limit t)"
    using round_double_between [OF y0 y1, of 0 "limit t"] y3 by simp
  have 1: "start t \<le> \<lfloor>round_double ?y\<rfloor>" using r0 by (simp add: le_floor_iff)
  have 2: "\<lfloor>round_double ?y\<rfloor> \<le> limit t" using r1 by (simp add: floor_le_iff)
  from 1 2 show ?thesis by (simp add: retry_delay_def w)
qed

lemma uses_ok:
  "range_inv t \<Longrightarrow> \<forall>r \<in> set rnds. 0 \<le> r \<and> r < 1 \<Longrightarrow>
   list_all (\<lambda>(u, d). range_ok u \<and> start u \<le> d \<and> d \<le> limit u) (uses t rnds)"
proof (induction rnds arbitrary: t)
  case Nil
  then show ?case by simp
next
  case (Cons r rnds)
  have ok: "range_ok t" using Cons.prems(1) by (rule range_inv_ok)
  from Cons.prems have d: "start t \<le> retry_delay r t \<and> retry_delay r t \<le> limit t"
    by (simp add: retry_delay_bounds)
  have "list_all (\<lambda>(u, d). range_ok u \<and> start u \<le> d \<and> d \<le> limit u) (uses (widen t) rnds)"
    using Cons.IH [of "widen t"] Cons.prems by (simp add: range_inv_widen)
  with ok d show ?case by (simp add: retry_def)
qed

lemma uses_above:
  "list_all (\<lambda>(u, d). start t \<le> start u \<and> limit t \<le> limit u) (uses t rnds)"
proof (induction rnds arbitrary: t)
  case Nil
  then show ?case by simp
next
  case (Cons r rnds)
  have m: "start t \<le> start (widen t) \<and> limit t \<le> limit (widen t)" by (rule widen_mono)
  have "list_all (\<lambda>(u, d). start (widen t) \<le> start u \<and> limit (widen t) \<le> limit u)
          (uses (widen t) rnds)"
    by (rule Cons.IH)
  then have "list_all (\<lambda>(u, d). start t \<le> start u \<and> limit t \<le> limit u) (uses (widen t) rnds)"
    using m by (auto simp: list_all_iff)
  then show ?case by (simp add: retry_def)
qed

lemma uses_sorted:
  "sorted_wrt (\<lambda>(u, d) (u', d'). start u \<le> start u' \<and> limit u \<le> limit u') (uses t rnds)"
proof (induction rnds arbitrary: t)
  case Nil
  then show ?case by simp
next
  case (Cons r rnds)
  have "list_all (\<lambda>(u, d). start (widen t) \<le> start u \<and> limit (widen t) \<le> limit u)
          (uses (widen t) rnds)"
    by (rule uses_above)
  then have "\<forall>x \<in> set (uses (widen t) rnds). start t \<le> start (fst x) \<and> limit t \<le> limit (fst x)"
    using widen_mono [of t] by (auto simp: list_all_iff)
  then show ?case using Cons.IH [of "widen t"] by (auto simp: retry_def)
qed

lemma after_uses_inv: "range_inv t \<Longrightarrow> range_inv (after_uses t rnds)"
  by (induction rnds arbitrary: t) (simp_all add: retry_def range_inv_widen)

lemma after_uses_mono:
  "start t \<le> start (after_uses t rnds) \<and> limit t \<le> limit (after_uses t rnds)"
proof (induction rnds arbitrary: t)
  case Nil
  then show ?case by simp
next
  case (Cons r rnds)
  show ?case using Cons [of "widen t"] widen_mono [of t] by (simp add: retry_def)
qed

lemma after_uses_above:
  "list_all (\<lambda>(u, d). start u \<le> start (after_uses t rnds) \<and> limit u \<le> limit (after_uses t rnds))
     (uses t rnds)"
proof (induction rnds arbitrary: t)
  case Nil
  then show ?case by simp
next
  case (Cons r rnds)
  show ?case
    using Cons.IH [of "widen t"] after_uses_mono [of "widen t" rnds] widen_mono [of t]
    by (simp add: retry_def)
qed

lemma round_product_near_one: "round_double ((1 - 1 / 2 ^ 52) * 5000) = 5000 - 1 / 2 ^ 40"
proof -
  have "round_double ((1 - 1 / 2 ^ 52) * 5000)
      = of_int (round_half_even ((1 - 1 / 2 ^ 52) * 5000 / pow2 (12 - 52))) * pow2 (12 - 52)"
    by (rule round_double_eval) (simp_all add: pow2_def)
  also have "round_half_even ((1 - 1 / 2 ^ 52) * 5000 / pow2 (12 - 52)) = 5497558138879999"
    by (rule round_half_even_near) (simp_all add: pow2_def)
  finally show ?thesis by (simp add: pow2_def)
qed

lemma round_sum_tie: "round_double (5000 - 1 / 2 ^ 40 + 5000) = 10000"
proof -
  have "round_double (5000 - 1 / 2 ^ 40 + 5000)
      = of_int (round_half_even ((5000 - 1 / 2 ^ 40 + 5000) / pow2 (13 - 52))) * pow2 (13 - 52)"
    by (rule round_double_eval) (simp_all add: pow2_def)
  also have "round_half_even ((5000 - 1 / 2 ^ 40 + 5000) / pow2 (13 - 52)) = 5497558138880000"
    by (rule round_half_even_tie) (simp_all add: pow2_def)
  finally show ?thesis by (simp add: pow2_def)
qed

lemma largest_draw_is_double: "round_double (1 - 1 / 2 ^ 52) = 1 - 1 / 2 ^ 52"
proof -
  have "round_double (1 - 1 / 2 ^ 52)
      = of_int (round_half_even ((1 - 1 / 2 ^ 52) / pow2 (- 1 - 52))) * pow2 (- 1 - 52)"
    by (rule round_double_eval) (simp_all add: pow2_def)
  also have "round_half_even ((1 - 1 / 2 ^ 52) / pow2 (- 1 - 52)) = 9007199254740990"
    by (rule round_half_even_near) (simp_all add: pow2_def)
  finally show ?thesis by (simp add: pow2_def)
qed

text \<open>
  C4 (as amended). Start from \<open>{start = 5000, limit = 10000}\<close> and use the scheduler any
  number of times, with draws in \<open>[0, 1)\<close>. At every use the floor is below the ceiling,
  the floor is at most 30000 and the ceiling at most 60000, and the delay lies between
  the floor and the ceiling of the range as it stood at that use, both included (the
  widening comes after the draw). Floors and ceilings never decrease from one use to any
  later one, nor to the range left after the last use, which obeys the same bounds.
\<close>

theorem backoff_range_invariant:
  assumes "\<forall>r \<in> set rnds. 0 \<le> r \<and> r < 1"
  shows "list_all (\<lambda>(t, d). start t < limit t \<and> start t \<le> 30000 \<and> limit t \<le> 60000
                      \<and> start t \<le> d \<and> d \<le> limit t) (uses new_retryTimer rnds)
       \<and> sorted_wrt (\<lambda>(t, d) (t', d'). start t \<le> start t' \<and> limit t \<le> limit t')
             (uses new_retryTimer rnds)
       \<and> list_all (\<lambda>(t, d). start t \<le> start (after_uses new_retryTimer rnds)
                      \<and> limit t \<le> limit (after_uses new_retryTimer rnds))
             (uses new_retryTimer rnds)
       \<and> start (after_uses new_retryTimer rnds) < limit (after_uses new_retryTimer rnds)
       \<and> start (after_uses new_retryTimer rnds) \<le> 30000
       \<and> limit (after_uses new_retryTimer rnds) \<le> 60000"
proof -
  have 1: "list_all (\<lambda>(u, d). range_ok u \<and> start u \<le> d \<and> d \<le> limit u) (uses new_retryTimer rnds)"
    using range_inv_new assms by (rule uses_ok)
  have 2: "range_ok (after_uses new_retryTimer rnds)"
    using range_inv_new by (intro range_inv_ok after_uses_inv)
  from 1 have 3: "list_all (\<lambda>(t, d). start t < limit t \<and> start t \<le> 30000 \<and> limit t \<le> 60000
                      \<and> start t \<le> d \<and> d \<le> limit t) (uses new_retryTimer rnds)"
    by (simp add: range_ok_def)
  from 3 2 uses_sorted [of new_retryTimer rnds] after_uses_above [of new_retryTimer rnds]
  show ?thesis by (simp only: range_ok_def)
qed

theorem backoff_range_invariant_witness:
  "uses new_retryTimer [1/2, 0, 3/4] =
     [(\<lparr>start = 5000, limit = 10000\<rparr>, 7500),
      (\<lparr>start = 10000, limit = 20000\<rparr>, 10000),
      (\<lparr>start = 15000, limit = 30000\<rparr>, 26250)]
   \<and> after_uses new_retryTimer [1/2, 0, 3/4] = \<lparr>start = 20000, limit = 40000\<rparr>
   \<and> sorted_wrt (\<lambda>(t, d) (t', d'). start t \<le> start t' \<and> limit t \<le> limit t')
         (uses new_retryTimer [1/2, 0, 3/4])
   \<and> limit (after_uses new_retryTimer [1/2, 0, 3/4]) \<le> 60000"
  using backoff_range_invariant [of "[1/2, 0, 3/4]"]
  by (simp add: retry_def retry_delay_def widen_def new_retryTimer_def
        round_double_numeral round_double_zero)

text \<open>
  C4 as stated fails: the delay can be the ceiling itself. The largest double below 1
  that has 52 fractional bits is \<open>1 - 1 / 2 ^ 52\<close>. On the first use of a new range the
  product with 5000 is rounded to \<open>5000 - 1 / 2 ^ 40\<close>, and its sum with 5000 lies midway
  between two doubles and is rounded to 10000: the delay is 10000, the ceiling of the
  range \<open>{start = 5000, limit = 10000}\<close>, not a number of \<open>[5000, 10000)\<close>.
\<close>

theorem backoff_delay_counterexample:
  "round_double (1 - 1 / 2 ^ 52) = 1 - 1 / 2 ^ 52
   \<and> (0 :: real) \<le> 1 - 1 / 2 ^ 52 \<and> (1 - 1 / 2 ^ 52 :: real) < 1
   \<and> uses new_retryTimer [1 - 1 / 2 ^ 52] = [(\<lparr>start = 5000, limit = 10000\<rparr>, 10000)]"
proof -
  let ?t = "\<lparr>start = 5000, limit = 10000\<rparr>"
  have l: "(of_int (limit ?t) :: real) = 10000"
    by simp
  have s: "(of_int (start ?t) :: real) = 5000"
    by simp
  have w: "round_double (10000 - 5000) = 5000"
    by (simp add: round_double_numeral)
  have "retry_delay (1 - 1 / 2 ^ 52) ?t
      = \<lfloor>round_double
           (round_double
              ((1 - 1 / 2 ^ 52) * round_double (of_int (limit ?t) - of_int (start ?t)))
            + of_int (start ?t))\<rfloor>"
    by (simp only: retry_delay_def)
  also have "\<dots> = \<lfloor>round_double
           (round_double ((1 - 1 / 2 ^ 52) * round_double (10000 - 5000)) + 5000)\<rfloor>"
    by (simp only: l s)
  also have "\<dots> = \<lfloor>round_double (round_double ((1 - 1 / 2 ^ 52) * 5000) + 5000)\<rfloor>"
    by (simp only: w)
  also have "\<dots> = \<lfloor>round_double (5000 - 1 / 2 ^ 40 + 5000)\<rfloor>"
    by (simp only: round_product_near_one)
  also have "\<dots> = \<lfloor>10000 :: real\<rfloor>"
    by (simp only: round_sum_tie)
  also have "\<dots> = 10000"
    by simp
  finally have "retry_delay (1 - 1 / 2 ^ 52) ?t = 10000" .
  with largest_draw_is_double show ?thesis
    by (simp add: retry_def new_retryTimer_def)
qed

section \<open>Properties: shard failures\<close>

text \<open>
  C5. Take a search or count response that reports failed shards. The reasons the
  wrapper works with are the distinct reason types of the shard failures. If the set of
  these types is exactly the backpressure type, the callback calls \<open>retry\<close> for the same
  query, the promise stays pending and the query is issued a second time; otherwise the
  callback rejects with the distinct types joined by \<^verbatim>\<open> | \<close>.
\<close>

theorem shard_failure_reconciliation:
  assumes "failed (r_shards data) > 0"
  shows "distinct (shard_reasons data) \<and> set (shard_reasons data) = set (failure_types data)
   \<and> (set (failure_types data) = {''es_rejected_execution_exception''} \<longrightarrow>
        search_then full query data = Retry query \<and> count_then query data = Retry query
        \<and> state (search_chain rt full query [(Fulfils data, rnd)]) = Pending
        \<and> waiting (search_chain rt full query [(Fulfils data, rnd)])
        \<and> sent (search_chain rt full query [(Fulfils data, rnd)]) = [query, query]
        \<and> state (count_chain rt query [(Fulfils data, rnd)]) = Pending
        \<and> waiting (count_chain rt query [(Fulfils data, rnd)])
        \<and> sent (count_chain rt query [(Fulfils data, rnd)])
            = [query, query])
   \<and> (set (failure_types data) \<noteq> {''es_rejected_execution_exception''} \<longrightarrow>
        search_then full query data = Reject (JStr (join '' | '' (shard_reasons data)))
        \<and> count_then query data = Reject (JStr (join '' | '' (shard_reasons data)))
        \<and> state (search_chain rt full query ((Fulfils data, rnd) # later))
            = Rejected (JStr (join '' | '' (shard_reasons data)))
        \<and> state (count_chain rt query ((Fulfils data, rnd) # later))
            = Rejected (JStr (join '' | '' (shard_reasons data))))"
proof -
  note s = search_then_failed [OF assms] and c = count_then_failed [OF assms]
  have a: "search_then full query data = Retry query \<and> count_then query data = Retry query
        \<and> state (search_chain rt full query [(Fulfils data, rnd)]) = Pending
        \<and> waiting (search_chain rt full query [(Fulfils data, rnd)])
        \<and> sent (search_chain rt full query [(Fulfils data, rnd)]) = [query, query]
        \<and> state (count_chain rt query [(Fulfils data, rnd)]) = Pending
        \<and> waiting (count_chain rt query [(Fulfils data, rnd)])
        \<and> sent (count_chain rt query [(Fulfils data, rnd)])
            = [query, query]"
    if "set (failure_types data) = {''es_rejected_execution_exception''}"
    using that by (simp add: s c search_chain_def count_chain_def search_attempt_def count_attempt_def)
  have b: "search_then full query data = Reject (JStr (join '' | '' (shard_reasons data)))
        \<and> count_then query data = Reject (JStr (join '' | '' (shard_reasons data)))
        \<and> state (search_chain rt full query ((Fulfils data, rnd) # later))
            = Rejected (JStr (join '' | '' (shard_reasons data)))
        \<and> state (count_chain rt query ((Fulfils data, rnd) # later))
            = Rejected (JStr (join '' | '' (shard_reasons data)))"
    if "set (failure_types data) \<noteq> {''es_rejected_execution_exception''}"
    using that by (simp add: s c search_chain_def count_chain_def search_attempt_def count_attempt_def)
  from a b shard_reasons_distinct [of data] shard_reasons_set [of data]
  show ?thesis by simp
qed


theorem shard_failure_reconciliation_witness:
  "sent (search_chain \<lparr>stringify = (\<lambda>j. ''{}''), to_string = (\<lambda>v. []), type_error = JUndefined\<rparr>
       False (7::nat)
       [(Fulfils \<lparr>r_shards = \<lparr>failed = 2, failures =
            [\<lparr>sf_reason = \<lparr>rs_type = ''es_rejected_execution_exception''\<rparr>\<rparr>,
             \<lparr>sf_reason = \<lparr>rs_type = ''es_rejected_execution_exception''\<rparr>\<rparr>]\<rparr>,
           r_hits = \<lparr>total = 0, hits = []\<rparr>\<rparr>, 1/2)]) = [7, 7]
   \<and> state (search_chain \<lparr>stringify = (\<lambda>j. ''{}''), to_string = (\<lambda>v. []), type_error = JUndefined\<rparr>
       False (7::nat)
       [(Fulfils \<lparr>r_shards = \<lparr>failed = 2, failures =
            [\<lparr>sf_reason = \<lparr>rs_type = ''es_rejected_execution_exception''\<rparr>\<rparr>,
             \<lparr>sf_reason = \<lparr>rs_type = ''es_rejected_execution_exception''\<rparr>\<rparr>]\<rparr>,
           r_hits = \<lparr>total = 0, hits = []\<rparr>\<rparr>, 1/2)]) = Pending
   \<and> state (count_chain \<lparr>stringify = (\<lambda>j. ''{}''), to_string = (\<lambda>v. []), type_error = JUndefined\<rparr>
       (7::nat)
       ((Fulfils \<lparr>r_shards = \<lparr>failed = 2, failures =
            [\<lparr>sf_reason = \<lparr>rs_type = ''es_rejected_execution_exception''\<rparr>\<rparr>,
             \<lparr>sf_reason = \<lparr>rs_type = ''search_parse_exception''\<rparr>\<rparr>]\<rparr>,
           r_hits = \<lparr>total = 0, hits = []\<rparr>\<rparr>, 1/2) # []))
      = Rejected (JStr ''es_rejected_execution_exception | search_parse_exception'')"
  using shard_failure_reconciliation [of
       "\<lparr>r_shards = \<lparr>failed = 2, failures =
            [\<lparr>sf_reason = \<lparr>rs_type = ''es_rejected_execution_exception''\<rparr>\<rparr>,
             \<lparr>sf_reason = \<lparr>rs_type = ''es_rejected_execution_exception''\<rparr>\<rparr>]\<rparr>,
           r_hits = \<lparr>total = 0, hits = []\<rparr>\<rparr>"
       False "7::nat"
       "\<lparr>stringify = (\<lambda>j. ''{}''), to_string = (\<lambda>v. []), type_error = JUndefined\<rparr>" "1/2" "[]"]
     shard_failure_reconciliation [of
       "\<lparr>r_shards = \<lparr>failed = 2, failures =
            [\<lparr>sf_reason = \<lparr>rs_type = ''es_rejected_execution_exception''\<rparr>\<rparr>,
             \<lparr>sf_reason = \<lparr>rs_type = ''search_parse_exception''\<rparr>\<rparr>]\<rparr>,
           r_hits = \<lparr>total = 0, hits = []\<rparr>\<rparr>"
       False "7::nat"
       "\<lparr>stringify = (\<lambda>j. ''{}''), to_string = (\<lambda>v. []), type_error = JUndefined\<rparr>" "1/2" "[]"]
  by (simp add: failure_types_def shard_reasons_def uniq_def)

section \<open>Properties: ignorable items\<close>

text \<open>
  C6. An item with an error is ignorable when its status is 409 or its error type is the
  already-exists or the missing type. At any index, 0 included, the loop passes over an
  ignorable item without touching the retry set or the fatal flag; the classifier's
  result is the one it gives when every ignorable error is replaced by a success. When
  every item with an error is ignorable, the retry set is empty and there is no fatal
  reason, and \<open>bulkSend\<close> resolves with the raw bulk result after the one request.
\<close>

theorem ignorable_errors_ignored:
  "(ignorable item \<longrightarrow>
      filter_loop data i (item # rest) acc = filter_loop data (i + 1) rest acc)
   \<and> filterResponse data results
       = filterResponse data (results\<lparr>items := map forgiven (items results)\<rparr>)
   \<and> (list_all (\<lambda>item. error item = None \<or> ignorable item) (items results) \<longrightarrow>
        filterResponse data results = \<lparr>f_data = [], f_error = False, f_reason = None\<rparr>
        \<and> bulk_then data results = Resolve results
        \<and> state (bulkSend rt data ((Fulfils results, rnd) # later)) = Fulfilled results
        \<and> sent (bulkSend rt data ((Fulfils results, rnd) # later)) = [data])"
proof -
  have a: "ignorable item \<longrightarrow>
      filter_loop data i (item # rest) acc = filter_loop data (i + 1) rest acc"
    using filter_loop_ignorable by blast
  have b: "filterResponse data results
       = filterResponse data (results\<lparr>items := map forgiven (items results)\<rparr>)"
    by (simp add: filterResponse_def filter_loop_forgiven)
  have c: "filterResponse data results = \<lparr>f_data = [], f_error = False, f_reason = None\<rparr>
        \<and> bulk_then data results = Resolve results
        \<and> state (bulkSend rt data ((Fulfils results, rnd) # later)) = Fulfilled results
        \<and> sent (bulkSend rt data ((Fulfils results, rnd) # later)) = [data]"
    if h: "list_all (\<lambda>item. error item = None \<or> ignorable item) (items results)"
  proof -
    note fr = filterResponse_all_ignorable [OF h, of data]
    then have bt: "bulk_then data results = Resolve results"
      by (simp add: bulk_then_def bulk_then_with_def)
    then show ?thesis using fr by (simp add: bulkSend_def sendData_def)
  qed
  from a b c show ?thesis by blast
qed

theorem ignorable_errors_ignored_witness:
  "filter_loop [JStr ''a0'', JStr ''d0'', JStr ''a1'', JStr ''d1''] 0
     (\<lparr>action = ''index'', status = Some 409, error = Some
          \<lparr>err_type = Some ''version_conflict_engine_exception'', err_reason = None\<rparr>\<rparr> #
      [\<lparr>action = ''index'', status = Some 201, error = None\<rparr>]) []
     = filter_loop [JStr ''a0'', JStr ''d0'', JStr ''a1'', JStr ''d1''] (0 + 1)
         [\<lparr>action = ''index'', status = Some 201, error = None\<rparr>] []
   \<and> state (bulkSend \<lparr>stringify = (\<lambda>j. ''{}''), to_string = (\<lambda>v. []), type_error = JUndefined\<rparr>
        [JStr ''a0'', JStr ''d0'', JStr ''a1'', JStr ''d1'']
        ((Fulfils \<lparr>errors = True, items =
           [\<lparr>action = ''index'', status = Some 409, error = Some
              \<lparr>err_type = Some ''version_conflict_engine_exception'', err_reason = None\<rparr>\<rparr>,
            \<lparr>action = ''index'', status = Some 201, error = None\<rparr>]\<rparr>, 0) # []))
     = Fulfilled \<lparr>errors = True, items =
           [\<lparr>action = ''index'', status = Some 409, error = Some
              \<lparr>err_type = Some ''version_conflict_engine_exception'', err_reason = None\<rparr>\<rparr>,
            \<lparr>action = ''index'', status = Some 201, error = None\<rparr>]\<rparr>"
  using ignorable_errors_ignored [of
     "\<lparr>action = ''index'', status = Some 409, error = Some
          \<lparr>err_type = Some ''version_conflict_engine_exception'', err_reason = None\<rparr>\<rparr>"
     "[JStr ''a0'', JStr ''d0'', JStr ''a1'', JStr ''d1'']" 0
     "[\<lparr>action = ''index'', status = Some 201, error = None\<rparr>]" "[]"
     "\<lparr>errors = True, items =
           [\<lparr>action = ''index'', status = Some 409, error = Some
              \<lparr>err_type = Some ''version_conflict_engine_exception'', err_reason = None\<rparr>\<rparr>,
            \<lparr>action = ''index'', status = Some 201, error = None\<rparr>]\<rparr>"
     "\<lparr>stringify = (\<lambda>j. ''{}''), to_string = (\<lambda>v. []), type_error = JUndefined\<rparr>" 0 "[]"]
  by (simp add: ignorable_def)

section \<open>Properties: point operations\<close>

lemma errorHandler_backpressure:
  "is_backpressure err \<Longrightarrow> errorHandler rt data err = Retry data"
  by (simp add: errorHandler_def is_backpressure_def)

lemma errorHandler_fatal:
  "\<not> is_backpressure err \<Longrightarrow> normalizable err \<Longrightarrow>
   errorHandler rt data err = Reject (normalize_spec rt err)"
  by (simp add: errorHandler_def is_backpressure_def parseError_normalizable)

lemma point_attempt_backpressure:
  "backpressure_failure ev \<Longrightarrow> point_attempt rt op query ev = Retry query"
  by (cases ev) (simp_all add: backpressure_failure_def point_attempt_def errorHandler_backpressure)

lemma point_all_backpressure:
  assumes "list_all (\<lambda>(ev, rnd). backpressure_failure ev) evs"
  shows "list_all (\<lambda>(ev, rnd). point_attempt rt op query ev = Retry query) evs"
  using assms by (auto simp: list_all_iff point_attempt_backpressure)

lemma errorHandler_throws:
  "\<not> is_backpressure err \<Longrightarrow> \<not> normalizable err \<Longrightarrow>
   errorHandler rt data err = Throws TypeError"
  by (simp add: errorHandler_def is_backpressure_def parseError_not_normalizable)

text \<open>
  C7 (as amended). For each of the ten point operations: a failure of the client call
  whose body names the backpressure type makes the wrapper call \<open>retry\<close> with the same
  request. Any other failure with an error value the normalizer accepts rejects the
  promise with the normalizer's result, which is the raw error value, not a string, when
  the error has no \<^verbatim>\<open>toJSON\<close>, stack or response. Any other failure with an error value
  on which the normalizer throws (\<^verbatim>\<open>null\<close> and \<^verbatim>\<open>undefined\<close> among them) makes the handler
  throw: the promise stays pending and no client call is outstanding. Over a whole call:
  while every client call fails with backpressure the promise is pending with a client
  call outstanding, every request issued is the caller's, and the delays are drawn from
  one range that started as \<open>new_retryTimer\<close> for this call; the first success fulfils
  the promise with the operation's value.
\<close>

theorem point_operation_policy:
  "(is_backpressure err \<longrightarrow> point_attempt rt op query (Fails err) = Retry query)
   \<and> (\<not> is_backpressure err \<and> normalizable err \<longrightarrow>
        point_attempt rt op query (Fails err) = Reject (normalize_spec rt err))
   \<and> (\<not> is_backpressure err \<and> \<not> normalizable err \<longrightarrow>
        point_attempt rt op query (Fails err) = Throws TypeError)
   \<and> (list_all (\<lambda>(ev, rnd). backpressure_failure ev) evs \<longrightarrow>
        state (point rt op query evs) = Pending
        \<and> waiting (point rt op query evs)
        \<and> sent (point rt op query evs) = replicate (length evs + 1) query
        \<and> delays (point rt op query evs) = map snd (uses new_retryTimer (map snd evs))
        \<and> timer (point rt op query evs) = after_uses new_retryTimer (map snd evs)
        \<and> (success_value op query result = Inr v \<longrightarrow>
             state (point rt op query (evs @ (Fulfils result, rnd) # later)) = Fulfilled v)
        \<and> (\<not> is_backpressure err \<and> normalizable err \<longrightarrow>
             state (point rt op query (evs @ (Fails err, rnd) # later))
               = Rejected (normalize_spec rt err))
        \<and> (\<not> is_backpressure err \<and> \<not> normalizable err \<longrightarrow>
             state (point rt op query (evs @ (Fails err, rnd) # later)) = Pending
             \<and> \<not> waiting (point rt op query (evs @ (Fails err, rnd) # later))))"
proof -
  have a: "is_backpressure err \<longrightarrow> point_attempt rt op query (Fails err) = Retry query"
    by (simp add: point_attempt_def errorHandler_backpressure)
  have b: "\<not> is_backpressure err \<and> normalizable err \<longrightarrow>
        point_attempt rt op query (Fails err) = Reject (normalize_spec rt err)"
    by (simp add: point_attempt_def errorHandler_fatal)
  have b': "\<not> is_backpressure err \<and> \<not> normalizable err \<longrightarrow>
        point_attempt rt op query (Fails err) = Throws TypeError"
    by (simp add: point_attempt_def errorHandler_throws)
  have c: "state (point rt op query evs) = Pending
        \<and> waiting (point rt op query evs)
        \<and> sent (point rt op query evs) = replicate (length evs + 1) query
        \<and> delays (point rt op query evs) = map snd (uses new_retryTimer (map snd evs))
        \<and> timer (point rt op query evs) = after_uses new_retryTimer (map snd evs)
        \<and> (success_value op query result = Inr v \<longrightarrow>
             state (point rt op query (evs @ (Fulfils result, rnd) # later)) = Fulfilled v)
        \<and> (\<not> is_backpressure err \<and> normalizable err \<longrightarrow>
             state (point rt op query (evs @ (Fails err, rnd) # later))
               = Rejected (normalize_spec rt err))
        \<and> (\<not> is_backpressure err \<and> \<not> normalizable err \<longrightarrow>
             state (point rt op query (evs @ (Fails err, rnd) # later)) = Pending
             \<and> \<not> waiting (point rt op query (evs @ (Fails err, rnd) # later)))"
    if bp: "list_all (\<lambda>(ev, rnd). backpressure_failure ev) evs"
  proof -
    note r = point_all_backpressure [OF bp, of rt op query]
    note st = run_retries_state [where handler = "point_attempt rt op" and p = query
        and t = new_retryTimer, OF r]
    note wt = run_retries_waiting [where handler = "point_attempt rt op" and p = query
        and t = new_retryTimer, OF r]
    have 1: "state (point rt op query evs) = Pending"
      using st [of "[]"] by (simp add: point_def)
    have 7: "waiting (point rt op query evs)"
      using wt [of "[]"] by (simp add: point_def)
    have 2: "sent (point rt op query evs) = replicate (length evs + 1) query"
      using run_retries_sent [where handler = "point_attempt rt op" and p = query
          and t = new_retryTimer and rest = "[]", OF r]
      by (simp add: point_def replicate_append_same)
    have 3: "delays (point rt op query evs) = map snd (uses new_retryTimer (map snd evs))"
      using run_retries_delays [where handler = "point_attempt rt op" and p = query
          and t = new_retryTimer and rest = "[]", OF r]
      by (simp add: point_def)
    have 4: "timer (point rt op query evs) = after_uses new_retryTimer (map snd evs)"
      using run_retries_timer [where handler = "point_attempt rt op" and p = query
          and t = new_retryTimer and rest = "[]", OF r]
      by (simp add: point_def)
    have 5: "state (point rt op query (evs @ (Fulfils result, rnd) # later)) = Fulfilled v"
      if "success_value op query result = Inr v"
      using st [of "(Fulfils result, rnd) # later"] that
      by (simp add: point_def point_attempt_def)
    have 6: "state (point rt op query (evs @ (Fails err, rnd) # later))
               = Rejected (normalize_spec rt err)"
      if "\<not> is_backpressure err \<and> normalizable err"
      using st [of "(Fails err, rnd) # later"] that b
      by (simp add: point_def)
    have 8: "state (point rt op query (evs @ (Fails err, rnd) # later)) = Pending
             \<and> \<not> waiting (point rt op query (evs @ (Fails err, rnd) # later))"
      if "\<not> is_backpressure err \<and> \<not> normalizable err"
      using st [of "(Fails err, rnd) # later"] wt [of "(Fails err, rnd) # later"] that b'
      by (simp add: point_def)
    from 1 2 3 4 5 6 7 8 show ?thesis by blast
  qed
  from a b b' c show ?thesis by blast
qed

theorem point_operation_policy_witness:
  "state (point \<lparr>stringify = (\<lambda>j. ''{}''), to_string = (\<lambda>v. []), type_error = JUndefined\<rparr> Get
       (JObj [(''id'', JStr ''1'')])
       [(Fails (JObj [(''body'', JObj [(''error'',
            JObj [(''type'', JStr ''es_rejected_execution_exception'')])])]), 1/2)]) = Pending
   \<and> delays (point \<lparr>stringify = (\<lambda>j. ''{}''), to_string = (\<lambda>v. []), type_error = JUndefined\<rparr> Get
       (JObj [(''id'', JStr ''1'')])
       [(Fails (JObj [(''body'', JObj [(''error'',
            JObj [(''type'', JStr ''es_rejected_execution_exception'')])])]), 1/2)]) = [7500]
   \<and> sent (point \<lparr>stringify = (\<lambda>j. ''{}''), to_string = (\<lambda>v. []), type_error = JUndefined\<rparr> Get
       (JObj [(''id'', JStr ''1'')])
       [(Fails (JObj [(''body'', JObj [(''error'',
            JObj [(''type'', JStr ''es_rejected_execution_exception'')])])]), 1/2)])
      = [JObj [(''id'', JStr ''1'')], JObj [(''id'', JStr ''1'')]]
   \<and> state (point \<lparr>stringify = (\<lambda>j. ''{}''), to_string = (\<lambda>v. []), type_error = JUndefined\<rparr> Get
       (JObj [(''id'', JStr ''1'')])
       ([(Fails (JObj [(''body'', JObj [(''error'',
            JObj [(''type'', JStr ''es_rejected_execution_exception'')])])]), 1/2)]
        @ (Fulfils (JObj [(''_source'', JStr ''doc'')]), 0) # [])) = Fulfilled (JStr ''doc'')
   \<and> state (point \<lparr>stringify = (\<lambda>j. ''{}''), to_string = (\<lambda>v. []), type_error = JUndefined\<rparr> Get
       (JObj [(''id'', JStr ''1'')])
       ([(Fails (JObj [(''body'', JObj [(''error'',
            JObj [(''type'', JStr ''es_rejected_execution_exception'')])])]), 1/2)]
        @ (Fails (JObj [(''stack'', JStr ''Error: x'')]), 0) # [])) = Rejected (JStr ''Error: x'')
   \<and> \<not> waiting (point \<lparr>stringify = (\<lambda>j. ''{}''), to_string = (\<lambda>v. []), type_error = JUndefined\<rparr> Get
       (JObj [(''id'', JStr ''1'')])
       ([(Fails (JObj [(''body'', JObj [(''error'',
            JObj [(''type'', JStr ''es_rejected_execution_exception'')])])]), 1/2)]
        @ (Fails JUndefined, 0) # []))"
  using point_operation_policy [of
      "JObj [(''stack'', JStr ''Error: x'')]"
      "\<lparr>stringify = (\<lambda>j. ''{}''), to_string = (\<lambda>v. []), type_error = JUndefined\<rparr>"
      Get "JObj [(''id'', JStr ''1'')]"
      "[(Fails (JObj [(''body'', JObj [(''error'',
            JObj [(''type'', JStr ''es_rejected_execution_exception'')])])]), 1/2)]"
      "JObj [(''_source'', JStr ''doc'')]" "JStr ''doc''" 0 "[]"]
    point_operation_policy [of
      JUndefined
      "\<lparr>stringify = (\<lambda>j. ''{}''), to_string = (\<lambda>v. []), type_error = JUndefined\<rparr>"
      Get "JObj [(''id'', JStr ''1'')]"
      "[(Fails (JObj [(''body'', JObj [(''error'',
            JObj [(''type'', JStr ''es_rejected_execution_exception'')])])]), 1/2)]"
      "JObj [(''_source'', JStr ''doc'')]" "JStr ''doc''" 0 "[]"]
  by (simp add: backpressure_failure_def is_backpressure_def lodash_get_def normalizable_def
        normalize_spec_def field_def retry_def retry_delay_def new_retryTimer_def
        round_double_numeral)

text \<open>
  C7 as stated fails. When \<^verbatim>\<open>client.get\<close> fails with \<^verbatim>\<open>null\<close>, the normalizer throws
  inside the handler: the promise is not rejected, it stays pending with no client call
  outstanding. When it fails with the plain object \<^verbatim>\<open>{body: {error: {type: 'x'}}}\<close>, the
  promise is rejected with that object, not with a string.
\<close>

theorem point_operation_counterexample:
  "state (point \<lparr>stringify = (\<lambda>j. ''{}''), to_string = (\<lambda>v. []), type_error = JUndefined\<rparr> Get
       (JObj [(''id'', JStr ''1'')]) [(Fails JNull, 0)]) = Pending
   \<and> \<not> waiting (point \<lparr>stringify = (\<lambda>j. ''{}''), to_string = (\<lambda>v. []), type_error = JUndefined\<rparr>
       Get (JObj [(''id'', JStr ''1'')]) [(Fails JNull, 0)])
   \<and> state (point \<lparr>stringify = (\<lambda>j. ''{}''), to_string = (\<lambda>v. []), type_error = JUndefined\<rparr> Get
       (JObj [(''id'', JStr ''1'')])
       [(Fails (JObj [(''body'', JObj [(''error'', JObj [(''type'', JStr ''x'')])])]), 0)])
     = Rejected (JObj [(''body'', JObj [(''error'', JObj [(''type'', JStr ''x'')])])])"
  by (simp add: point_def point_attempt_def errorHandler_def lodash_get_def parseError_def)

section \<open>Properties: the error normalizer\<close>

text \<open>
  C8 (as amended). The normalizer is a function of its argument, so it is deterministic.
  It returns without throwing exactly on the error values that are \<open>normalizable\<close>:
  neither \<^verbatim>\<open>null\<close> nor \<^verbatim>\<open>undefined\<close>, with a \<^verbatim>\<open>toJSON\<close> property that is either falsy
  or a function returning a value other than \<^verbatim>\<open>null\<close> and \<^verbatim>\<open>undefined\<close>. On those it
  follows the priority order of \<open>normalize_spec\<close>: the \<^verbatim>\<open>msg\<close> of the serialized form
  if truthy, else the tagged text embedding the serialized form; without \<^verbatim>\<open>toJSON\<close>,
  the stack if truthy, else the response if truthy, else the error value itself. On every
  other value it throws a \<^verbatim>\<open>TypeError\<close>.
\<close>

theorem parseError_priority:
  "(normalizable err \<longrightarrow> parseError rt err = Inr (normalize_spec rt err))
   \<and> (\<not> normalizable err \<longrightarrow> parseError rt err = Inl TypeError)"
  using parseError_normalizable parseError_not_normalizable by blast

text \<open>
  C8 as stated fails: on \<^verbatim>\<open>null\<close> and on \<^verbatim>\<open>undefined\<close> the first property read
  throws; so does the call when \<^verbatim>\<open>toJSON\<close> is truthy and not a function, and the read of
  \<^verbatim>\<open>msg\<close> when \<^verbatim>\<open>toJSON()\<close> returns \<^verbatim>\<open>null\<close>.
\<close>

theorem parseError_null_counterexample:
  "parseError \<lparr>stringify = (\<lambda>j. []), to_string = (\<lambda>v. []), type_error = JUndefined\<rparr> JNull
     = Inl TypeError
   \<and> parseError \<lparr>stringify = (\<lambda>j. []), to_string = (\<lambda>v. []), type_error = JUndefined\<rparr>
       JUndefined = Inl TypeError
   \<and> parseError \<lparr>stringify = (\<lambda>j. []), to_string = (\<lambda>v. []), type_error = JUndefined\<rparr>
       (JObj [(''toJSON'', JBool True)]) = Inl TypeError
   \<and> parseError \<lparr>stringify = (\<lambda>j. []), to_string = (\<lambda>v. []), type_error = JUndefined\<rparr>
       (JObj [(''toJSON'', JFun JNull)]) = Inl TypeError"
  by (simp add: parseError_def)

theorem parseError_priority_witness:
  "normalizable (JObj [(''toJSON'', JFun (JObj [(''msg'', JStr ''No Living connections'')]))])
   \<and> parseError \<lparr>stringify = (\<lambda>j. ''{}''), to_string = (\<lambda>v. []), type_error = JUndefined\<rparr>
        (JObj [(''toJSON'', JFun (JObj [(''msg'', JStr ''No Living connections'')]))])
      = Inr (JStr ''No Living connections'')
   \<and> parseError \<lparr>stringify = (\<lambda>j. ''{}''), to_string = (\<lambda>v. []), type_error = JUndefined\<rparr>
        (JObj [(''toJSON'', JFun (JObj []))])
      = Inr (JStr ''Unknown ES Error Format {}'')
   \<and> parseError \<lparr>stringify = (\<lambda>j. ''{}''), to_string = (\<lambda>v. []), type_error = JUndefined\<rparr>
        (JObj [(''stack'', JStr ''Error: x''), (''response'', JStr ''r'')])
      = Inr (JStr ''Error: x'')
   \<and> parseError \<lparr>stringify = (\<lambda>j. ''{}''), to_string = (\<lambda>v. []), type_error = JUndefined\<rparr>
        (JObj [(''response'', JStr ''r'')])
      = Inr (JStr ''r'')
   \<and> parseError \<lparr>stringify = (\<lambda>j. ''{}''), to_string = (\<lambda>v. []), type_error = JUndefined\<rparr>
        (JStr ''boom'')
      = Inr (JStr ''boom'')
   \<and> \<not> normalizable (JObj [(''toJSON'', JFun JNull)])
   \<and> parseError \<lparr>stringify = (\<lambda>j. ''{}''), to_string = (\<lambda>v. []), type_error = JUndefined\<rparr>
        (JObj [(''toJSON'', JFun JNull)])
      = Inl TypeError"
  using parseError_priority [of "JObj [(''toJSON'', JFun (JObj [(''msg'', JStr ''No Living connections'')]))]"
          "\<lparr>stringify = (\<lambda>j. ''{}''), to_string = (\<lambda>v. []), type_error = JUndefined\<rparr>"]
        parseError_priority [of "JObj [(''toJSON'', JFun (JObj []))]"
          "\<lparr>stringify = (\<lambda>j. ''{}''), to_string = (\<lambda>v. []), type_error = JUndefined\<rparr>"]
        parseError_priority [of "JObj [(''stack'', JStr ''Error: x''), (''response'', JStr ''r'')]"
          "\<lparr>stringify = (\<lambda>j. ''{}''), to_string = (\<lambda>v. []), type_error = JUndefined\<rparr>"]
        parseError_priority [of "JObj [(''response'', JStr ''r'')]"
          "\<lparr>stringify = (\<lambda>j. ''{}''), to_string = (\<lambda>v. []), type_error = JUndefined\<rparr>"]
        parseError_priority [of "JStr ''boom''"
          "\<lparr>stringify = (\<lambda>j. ''{}''), to_string = (\<lambda>v. []), type_error = JUndefined\<rparr>"]
        parseError_priority [of "JObj [(''toJSON'', JFun JNull)]"
          "\<lparr>stringify = (\<lambda>j. ''{}''), to_string = (\<lambda>v. []), type_error = JUndefined\<rparr>"]
  by (simp add: normalizable_def normalize_spec_def field_def)

section \<open>Properties: clean bulk responses and transport errors\<close>

text \<open>
  C9 (as amended). A bulk response whose \<^verbatim>\<open>errors\<close> flag is false resolves the promise at
  once with the raw result, whatever classifier the callback would call (it is not
  called). A failure of the bulk call itself with an error value the normalizer accepts
  rejects the promise at once with the text \<^verbatim>\<open>bulk sender error: \<close> followed by the
  normalized reason. With an error value on which the normalizer throws (\<^verbatim>\<open>null\<close> and
  \<^verbatim>\<open>undefined\<close> among them) the callback throws: the promise stays pending and no client
  call is outstanding. On no failure of the call does the callback schedule a retry.
\<close>

theorem bulk_clean_or_transport:
  "(\<not> errors results \<longrightarrow>
      bulk_then_with classify data results = Resolve results
      \<and> sendData rt data (Fulfils results) = Resolve results
      \<and> state (bulkSend rt data ((Fulfils results, rnd) # later)) = Fulfilled results
      \<and> sent (bulkSend rt data ((Fulfils results, rnd) # later)) = [data]
      \<and> delays (bulkSend rt data ((Fulfils results, rnd) # later)) = [])
   \<and> (normalizable err \<longrightarrow>
      sendData rt data (Fails err)
        = Reject (JStr (''bulk sender error: '' @ template rt (normalize_spec rt err)))
      \<and> state (bulkSend rt data ((Fails err, rnd) # later))
        = Rejected (JStr (''bulk sender error: '' @ template rt (normalize_spec rt err)))
      \<and> sent (bulkSend rt data ((Fails err, rnd) # later)) = [data]
      \<and> delays (bulkSend rt data ((Fails err, rnd) # later)) = [])
   \<and> (\<not> normalizable err \<longrightarrow>
      sendData rt data (Fails err) = Throws TypeError
      \<and> state (bulkSend rt data ((Fails err, rnd) # later)) = Pending
      \<and> \<not> waiting (bulkSend rt data ((Fails err, rnd) # later))
      \<and> sent (bulkSend rt data ((Fails err, rnd) # later)) = [data]
      \<and> delays (bulkSend rt data ((Fails err, rnd) # later)) = [])
   \<and> (\<forall>p. sendData rt data (Fails err) \<noteq> Retry p)"
proof -
  have a: "bulk_then_with classify data results = Resolve results
      \<and> sendData rt data (Fulfils results) = Resolve results
      \<and> state (bulkSend rt data ((Fulfils results, rnd) # later)) = Fulfilled results
      \<and> sent (bulkSend rt data ((Fulfils results, rnd) # later)) = [data]
      \<and> delays (bulkSend rt data ((Fulfils results, rnd) # later)) = []"
    if "\<not> errors results"
    using that by (simp add: bulkSend_def sendData_def bulk_then_def bulk_then_with_def)
  have b: "sendData rt data (Fails err)
        = Reject (JStr (''bulk sender error: '' @ template rt (normalize_spec rt err)))
      \<and> state (bulkSend rt data ((Fails err, rnd) # later))
        = Rejected (JStr (''bulk sender error: '' @ template rt (normalize_spec rt err)))
      \<and> sent (bulkSend rt data ((Fails err, rnd) # later)) = [data]
      \<and> delays (bulkSend rt data ((Fails err, rnd) # later)) = []"
    if "normalizable err"
    using that by (simp add: bulkSend_def sendData_def bulk_catch_def parseError_normalizable)
  have c: "sendData rt data (Fails err) = Throws TypeError
      \<and> state (bulkSend rt data ((Fails err, rnd) # later)) = Pending
      \<and> \<not> waiting (bulkSend rt data ((Fails err, rnd) # later))
      \<and> sent (bulkSend rt data ((Fails err, rnd) # later)) = [data]
      \<and> delays (bulkSend rt data ((Fails err, rnd) # later)) = []"
    if "\<not> normalizable err"
    using that
    by (simp add: bulkSend_def sendData_def bulk_catch_def parseError_not_normalizable)
  from a b c sendData_never_retries_on_failure show ?thesis by blast
qed

theorem bulk_clean_or_transport_witness:
  "state (bulkSend \<lparr>stringify = (\<lambda>j. ''{}''), to_string = (\<lambda>v. []), type_error = JUndefined\<rparr>
        [JStr ''a0'', JStr ''d0'']
        ((Fulfils \<lparr>errors = False, items =
            [\<lparr>action = ''index'', status = Some 201, error = None\<rparr>]\<rparr>, 0) # []))
     = Fulfilled \<lparr>errors = False, items =
            [\<lparr>action = ''index'', status = Some 201, error = None\<rparr>]\<rparr>
   \<and> state (bulkSend \<lparr>stringify = (\<lambda>j. ''{}''), to_string = (\<lambda>v. []), type_error = JUndefined\<rparr>
        [JStr ''a0'', JStr ''d0'']
        ((Fails (JObj [(''toJSON'', JFun (JObj [(''msg'', JStr ''Request Timeout'')]))]), 0) # []))
     = Rejected (JStr ''bulk sender error: Request Timeout'')
   \<and> \<not> waiting (bulkSend \<lparr>stringify = (\<lambda>j. ''{}''), to_string = (\<lambda>v. []), type_error = JUndefined\<rparr>
        [JStr ''a0'', JStr ''d0''] ((Fails JUndefined, 0) # []))"
  using bulk_clean_or_transport [of
     "\<lparr>errors = False, items = [\<lparr>action = ''index'', status = Some 201, error = None\<rparr>]\<rparr>"
     filterResponse "[JStr ''a0'', JStr ''d0'']"
     "\<lparr>stringify = (\<lambda>j. ''{}''), to_string = (\<lambda>v. []), type_error = JUndefined\<rparr>" 0 "[]"
     "JObj [(''toJSON'', JFun (JObj [(''msg'', JStr ''Request Timeout'')]))]"]
    bulk_clean_or_transport [of
     "\<lparr>errors = False, items = [\<lparr>action = ''index'', status = Some 201, error = None\<rparr>]\<rparr>"
     filterResponse "[JStr ''a0'', JStr ''d0'']"
     "\<lparr>stringify = (\<lambda>j. ''{}''), to_string = (\<lambda>v. []), type_error = JUndefined\<rparr>" 0 "[]"
     JUndefined]
  by (simp add: normalizable_def normalize_spec_def field_def template_def)

text \<open>
  C9 as stated fails. When \<^verbatim>\<open>client.bulk\<close> fails with \<^verbatim>\<open>null\<close>, the normalizer throws
  inside the \<^verbatim>\<open>.catch\<close> callback: the promise is not rejected, it stays pending with no
  client call outstanding.
\<close>

theorem bulk_transport_counterexample:
  "sendData \<lparr>stringify = (\<lambda>j. ''{}''), to_string = (\<lambda>v. []), type_error = JUndefined\<rparr>
       [JStr ''a0'', JStr ''d0''] (Fails JNull) = Throws TypeError
   \<and> state (bulkSend \<lparr>stringify = (\<lambda>j. ''{}''), to_string = (\<lambda>v. []), type_error = JUndefined\<rparr>
       [JStr ''a0'', JStr ''d0''] [(Fails JNull, 0)]) = Pending
   \<and> \<not> waiting (bulkSend \<lparr>stringify = (\<lambda>j. ''{}''), to_string = (\<lambda>v. []), type_error = JUndefined\<rparr>
       [JStr ''a0'', JStr ''d0''] [(Fails JNull, 0)])"
  by (simp add: bulkSend_def sendData_def bulk_catch_def parseError_def)

section \<open>Properties: the query object\<close>

text \<open>
  C10. Called with a query object, \<open>count\<close> writes \<^verbatim>\<open>size = 0\<close> into that very object
  of the caller's store, whatever the client answers later (so already before the first
  client call is answered): afterwards the object's \<^verbatim>\<open>size\<close> is 0, its other properties
  and all other objects are as before. Every request of the chain, the first and each
  retry, passes this same object, which the client therefore reads with \<^verbatim>\<open>size = 0\<close>.
  \<open>search\<close> leaves the store as it found it and passes the caller's object, as it was,
  in every request.
\<close>

theorem count_writes_size:
  assumes "st query = Some obj"
  shows "fst (count rt st query events) = st(query \<mapsto> AList.update ''size'' (JNum 0) obj)
   \<and> map_of (AList.update ''size'' (JNum 0) obj) ''size'' = Some (JNum 0)
   \<and> (\<forall>k. k \<noteq> ''size'' \<longrightarrow> map_of (AList.update ''size'' (JNum 0) obj) k = map_of obj k)
   \<and> snd (count rt st query events) = Inr (count_chain rt query events)
   \<and> set (sent (count_chain rt query events)) = {query}
   \<and> list_all (\<lambda>q. fst (count rt st query events) q
                       = Some (AList.update ''size'' (JNum 0) obj))
         (sent (count_chain rt query events))
   \<and> search rt full st query events' = (st, search_chain rt full query events')
   \<and> set (sent (search_chain rt full query events')) = {query}
   \<and> list_all (\<lambda>q. fst (search rt full st query events') q = Some obj)
         (sent (search_chain rt full query events'))"
proof -
  let ?obj = "AList.update ''size'' (JNum 0) obj"
  have 1: "set (sent (count_chain rt query events)) = {query}"
    unfolding count_chain_def
    by (rule run_sent_same) (rule count_attempt_retry_same)
  have 2: "set (sent (search_chain rt full query events')) = {query}"
    unfolding search_chain_def
    by (rule run_sent_same) (rule search_attempt_retry_same)
  have 3: "count rt st query events = (st(query \<mapsto> ?obj), Inr (count_chain rt query events))"
    using assms by (simp add: count_def)
  have 4: "search rt full st query events' = (st, search_chain rt full query events')"
    by (simp add: search_def)
  have 5: "map_of ?obj ''size'' = Some (JNum 0)"
    by (simp add: update_conv')
  have 6: "\<forall>k. k \<noteq> ''size'' \<longrightarrow> map_of ?obj k = map_of obj k"
    by (simp add: update_conv')
  have 7: "list_all (\<lambda>q. fst (count rt st query events) q = Some ?obj)
             (sent (count_chain rt query events))"
    unfolding list_all_iff 1 3 by simp
  have 8: "list_all (\<lambda>q. fst (search rt full st query events') q = Some obj)
             (sent (search_chain rt full query events'))"
    unfolding list_all_iff 2 4 using assms by simp
  have 9: "fst (count rt st query events) = st(query \<mapsto> ?obj)"
    by (simp only: 3 fst_conv)
  have 10: "snd (count rt st query events) = Inr (count_chain rt query events)"
    by (simp only: 3 snd_conv)
  from 9 5 6 10 1 7 4 2 8 show ?thesis by (intro conjI)
qed

theorem count_writes_size_witness:
  "fst (count \<lparr>stringify = (\<lambda>j. ''{}''), to_string = (\<lambda>v. []), type_error = JUndefined\<rparr>
        [0 \<mapsto> [(''index'', JStr ''logs''), (''size'', JNum 100)]] 0 []) 0
     = Some [(''index'', JStr ''logs''), (''size'', JNum 0)]
   \<and> fst (search \<lparr>stringify = (\<lambda>j. ''{}''), to_string = (\<lambda>v. []), type_error = JUndefined\<rparr>
        False [0 \<mapsto> [(''index'', JStr ''logs''), (''size'', JNum 100)]] 0 []) 0
     = Some [(''index'', JStr ''logs''), (''size'', JNum 100)]
   \<and> sent (count_chain \<lparr>stringify = (\<lambda>j. ''{}''), to_string = (\<lambda>v. []), type_error = JUndefined\<rparr>
        (0::nat) []) = [0]"
  using count_writes_size [of "[0 \<mapsto> [(''index'', JStr ''logs''), (''size'', JNum 100)]]" 0
      "[(''index'', JStr ''logs''), (''size'', JNum 100)]"
      "\<lparr>stringify = (\<lambda>j. ''{}''), to_string = (\<lambda>v. []), type_error = JUndefined\<rparr>" "[]" False "[]"]
  by (simp add: count_chain_def)

end
